theory Spec2Isabelle
  imports Complex_Main
begin

chapter \<open>IELTS realtime interview bot: retrieval subsystem and turn controller\<close>

text \<open>
  A shallow embedding of the JavaScript sources
  \<^item> \<^verbatim>\<open>server/utils/pdfProcessor.js\<close> (\<^verbatim>\<open>chunkText\<close>, \<^verbatim>\<open>generateEmbeddings\<close>),
  \<^item> \<^verbatim>\<open>server/utils/vectorStore.js\<close> (\<^verbatim>\<open>searchSimilar\<close>, \<^verbatim>\<open>deleteDocument\<close>,
    \<^verbatim>\<open>listDocuments\<close>, \<^verbatim>\<open>getStats\<close>),
  \<^item> \<^verbatim>\<open>server/utils/retriever.js\<close> (\<^verbatim>\<open>generateQueryEmbedding\<close>, \<^verbatim>\<open>retrieveContext\<close>,
    \<^verbatim>\<open>formatContextForAI\<close>),
  \<^item> \<^verbatim>\<open>server/server.js\<close> and the earlier server file (the handlers of
    \<^verbatim>\<open>/api/search\<close> and \<^verbatim>\<open>/api/realtime/call\<close>),
  \<^item> the browser client (\<^verbatim>\<open>startTalking\<close>, \<^verbatim>\<open>stopTalking\<close>, \<^verbatim>\<open>handleRealtimeEvent\<close> and
    the handlers it dispatches to).

  Conventions. A JavaScript string is a \<^typ>\<open>string\<close>, one \<^typ>\<open>char\<close> per code unit below 256.
  A thrown exception is the left injection of a sum; an \<^verbatim>\<open>async\<close> function that rejects
  is modelled the same way. External collaborators (the embedding service, the vector
  storage client, the session endpoint) are parameters of the functions that call them.
  Numbers that the code uses as indices and sizes are \<^typ>\<open>int\<close> or \<^typ>\<open>nat\<close>; distances and
  scores are \<^typ>\<open>real\<close> (rounding of IEEE doubles is outside the model).
\<close>

section \<open>Part I: the embedding of the code\<close>

subsection \<open>JavaScript values shared by the modules\<close>

text \<open>A thrown \<^verbatim>\<open>Error\<close> object, with its \<^verbatim>\<open>message\<close> property.\<close>

datatype js_error = Error string | TypeError string

fun message :: "js_error \<Rightarrow> string" where
  "message (Error m) = m"
| "message (TypeError m) = m"

text \<open>
  An optional string argument (\<^verbatim>\<open>apiKey\<close>, \<^verbatim>\<open>query\<close>): \<^term>\<open>None\<close> is
  \<^verbatim>\<open>undefined\<close>/\<^verbatim>\<open>null\<close>. The test \<^verbatim>\<open>!x\<close> holds for those and for the empty string.
\<close>

fun falsy :: "string option \<Rightarrow> bool" where
  "falsy None = True"
| "falsy (Some s) = (s = [])"

type_synonym embedding = "real list"

subsection \<open>Strings: whitespace, \<^verbatim>\<open>trim\<close>, \<^verbatim>\<open>slice\<close>, \<^verbatim>\<open>lastIndexOf\<close>, \<^verbatim>\<open>replace\<close>\<close>

text \<open>
  The class \<^verbatim>\<open>\s\<close> of a regular expression and the characters removed by \<^verbatim>\<open>trim()\<close>,
  among the code units below 256: TAB, LF, VT, FF, CR, space and NBSP.
\<close>

definition is_space :: "char \<Rightarrow> bool" where
  "is_space c = (of_char c \<in> {9, 10, 11, 12, 13, 32, 160 :: nat})"

text \<open>
  \<^verbatim>\<open>s.replace(/P+/g, r)\<close> for a character class \<open>P\<close> and a one-character replacement:
  every maximal run of \<open>P\<close>-characters becomes the single character \<open>r\<close>.
\<close>

function collapse :: "(char \<Rightarrow> bool) \<Rightarrow> char \<Rightarrow> string \<Rightarrow> string" where
  "collapse P r [] = []"
| "collapse P r (c # cs) =
     (if P c then r # collapse P r (dropWhile P cs) else c # collapse P r cs)"
  by pat_completeness auto
termination
  by (relation "measure (\<lambda>(P, r, s). length s)")
    (auto simp: less_Suc_eq_le length_dropWhile_le)

definition trim :: "string \<Rightarrow> string" where
  "trim s = rev (dropWhile is_space (rev (dropWhile is_space s)))"

text \<open>\<^verbatim>\<open>s.lastIndexOf(c)\<close>: the greatest index holding \<open>c\<close>, or \<open>-1\<close>.\<close>

definition lastIndexOf :: "string \<Rightarrow> char \<Rightarrow> int" where
  "lastIndexOf s c =
     (if c \<in> set s
      then int (length s) - 1 - int (length (takeWhile (\<lambda>x. x \<noteq> c) (rev s)))
      else - 1)"

text \<open>
  \<^verbatim>\<open>s.slice(a, b)\<close>: a negative index counts from the end, both indices are clamped to
  the string, and an empty range gives the empty string.
\<close>

definition js_slice :: "string \<Rightarrow> int \<Rightarrow> int \<Rightarrow> string" where
  "js_slice s a b =
     (let len = int (length s);
          from = (if a < 0 then max (len + a) 0 else min a len);
          to = (if b < 0 then max (len + b) 0 else min b len)
      in take (nat (max (to - from) 0)) (drop (nat from) s))"

subsection \<open>Chunker: \<^verbatim>\<open>chunkText\<close> (pdfProcessor.js)\<close>

text \<open>
  \<^verbatim>\<open>cleanText = text.replace(/\s+/g, ' ').replace(/\n+/g, '\n').trim()\<close>.
\<close>

definition clean_text :: "string \<Rightarrow> string" where
  "clean_text text =
     trim (collapse (\<lambda>c. c = CHR 0x0A) (CHR 0x0A) (collapse is_space (CHR '' '') text))"

text \<open>
  One pass through the body of the \<^verbatim>\<open>while\<close> loop, up to the test of \<^verbatim>\<open>chunk.trim()\<close>:
  the chunk cut from the window that starts at \<open>startIndex\<close>, and the next value of
  \<open>startIndex\<close>. The test \<^verbatim>\<open>breakPoint > chunkSize * 0.5\<close> on integers is
  \<open>2 * breakPoint > chunkSize\<close>.
\<close>

definition chunk_step :: "string \<Rightarrow> int \<Rightarrow> int \<Rightarrow> int \<Rightarrow> string \<times> int" where
  "chunk_step cleanText chunkSize overlap startIndex =
     (let endIndex = min (startIndex + chunkSize) (int (length cleanText));
          chunk = js_slice cleanText startIndex endIndex
      in if endIndex < int (length cleanText)
         then (let lastPeriod = lastIndexOf chunk (CHR ''.'');
                   lastNewline = lastIndexOf chunk (CHR 0x0A);
                   breakPoint = max lastPeriod lastNewline
               in if 2 * breakPoint > chunkSize
                  then (js_slice chunk 0 (breakPoint + 1), startIndex + (breakPoint + 1))
                  else (chunk, startIndex + (chunkSize - overlap)))
         else (chunk, int (length cleanText)))"

text \<open>
  The loop \<^verbatim>\<open>while (startIndex < cleanText.length)\<close>. It need not terminate (with
  \<open>overlap = chunkSize\<close> and no break point the start index stands still), so not
  returning is the value \<^term>\<open>None\<close>. \<open>chunks\<close> is the array being filled, in push
  order; \<open>iters\<close> counts the passes through the loop body and is the only addition to the
  source.
\<close>

partial_function (option) chunk_loop ::
  "string \<Rightarrow> int \<Rightarrow> int \<Rightarrow> int \<Rightarrow> string list \<Rightarrow> nat \<Rightarrow> (string list \<times> nat) option" where
  "chunk_loop cleanText chunkSize overlap startIndex chunks iters =
     (if startIndex < int (length cleanText)
      then (case chunk_step cleanText chunkSize overlap startIndex of
              (chunk, startIndex') \<Rightarrow>
                chunk_loop cleanText chunkSize overlap startIndex'
                  (if length (trim chunk) > 0 then chunks @ [trim chunk] else chunks)
                  (Suc iters))
      else Some (chunks, iters))"

declare chunk_loop.simps [code]

definition chunkText_run :: "string \<Rightarrow> int \<Rightarrow> int \<Rightarrow> (string list \<times> nat) option" where
  "chunkText_run text chunkSize overlap = chunk_loop (clean_text text) chunkSize overlap 0 [] 0"

definition chunkText :: "string \<Rightarrow> int \<Rightarrow> int \<Rightarrow> string list option" where
  "chunkText text chunkSize overlap = map_option fst (chunkText_run text chunkSize overlap)"

text \<open>
  The vocabulary of the chunker's properties. \<open>iteration_bound len step\<close> is
  \<open>ceil(len / step)\<close>. \<open>min_advance\<close> is the least distance the start index moves in a
  pass that is not the last: \<open>chunkSize - overlap\<close> when no break point is taken, and at
  least \<open>breakPoint + 1\<close> with \<open>2 * breakPoint > chunkSize\<close> when one is.
  \<open>covered cleanText chunks i\<close>: position \<open>i\<close> of the normalized text lies in some chunk,
  that chunk being the slice of the text at an offset \<open>off\<close>.
\<close>

definition iteration_bound :: "nat \<Rightarrow> int \<Rightarrow> int" where
  "iteration_bound len step = \<lceil>real len / real_of_int step\<rceil>"

definition min_advance :: "int \<Rightarrow> int \<Rightarrow> int" where
  "min_advance chunkSize overlap = min (chunkSize - overlap) (chunkSize div 2 + 2)"

definition covered :: "string \<Rightarrow> string list \<Rightarrow> nat \<Rightarrow> bool" where
  "covered cleanText chunks i =
     (\<exists>c \<in> set chunks. \<exists>off \<le> i. i < off + length c \<and> take (length c) (drop off cleanText) = c)"

subsection \<open>Embedder: \<^verbatim>\<open>generateEmbeddings\<close> (pdfProcessor.js)\<close>

text \<open>
  The embedding collaborator, \<^verbatim>\<open>openai.embeddings.create({model, input})\<close>, is a parameter
  \<open>create\<close>: given the API key and the input (one string or an array of strings) it
  rejects or answers with \<^verbatim>\<open>response.data.map(item => item.embedding)\<close>.
\<close>

datatype embedding_input = Single string | Batch "string list"

type_synonym embeddings_api = "string \<Rightarrow> embedding_input \<Rightarrow> js_error + embedding list"

definition batchSize :: nat where
  "batchSize = 20"

text \<open>
  \<^verbatim>\<open>for (let i = 0; i < chunks.length; i += batchSize)\<close>, with
  \<^verbatim>\<open>batch = chunks.slice(i, i + batchSize)\<close> and \<^verbatim>\<open>embeddings.push(...batchEmbeddings)\<close>. A
  rejected request leaves the loop with the error.
\<close>

function embed_batches ::
  "embeddings_api \<Rightarrow> string \<Rightarrow> string list \<Rightarrow> nat \<Rightarrow> embedding list \<Rightarrow> js_error + embedding list" where
  "embed_batches create apiKey chunks i embeddings =
     (if i < length chunks
      then (case create apiKey (Batch (take batchSize (drop i chunks))) of
              Inl e \<Rightarrow> Inl e
            | Inr batchEmbeddings \<Rightarrow>
                embed_batches create apiKey chunks (i + batchSize) (embeddings @ batchEmbeddings))
      else Inr embeddings)"
  by pat_completeness auto
termination
  by (relation "measure (\<lambda>(create, apiKey, chunks, i, embeddings). length chunks - i)")
    (auto simp: batchSize_def)

declare embed_batches.simps [simp del]

definition generateEmbeddings ::
  "embeddings_api \<Rightarrow> string list \<Rightarrow> string option \<Rightarrow> js_error + embedding list" where
  "generateEmbeddings create chunks apiKey =
     (if falsy apiKey then Inl (Error ''API Key required for generating embeddings'')
      else (case embed_batches create (the apiKey) chunks 0 [] of
              Inl e \<Rightarrow> Inl (Error ''Failed to generate embeddings'')
            | Inr embeddings \<Rightarrow> Inr embeddings))"

subsection \<open>Vector index (vectorStore.js)\<close>

text \<open>
  A stored chunk as \<^verbatim>\<open>addDocuments\<close> writes it: its id, its embedding, the metadata object
  and the document text.
\<close>

record chunk_metadata =
  documentId :: string
  chunkIndex :: nat
  totalChunks :: nat
  fileName :: string
  uploadedAt :: string
  md_text :: string

record chunk_record =
  chunk_id :: string
  chunk_embedding :: embedding
  metadata :: chunk_metadata
  document :: string

text \<open>
  The state of the vector storage collaborator: the records of the collection
  \<^verbatim>\<open>ielts_materials\<close> in storage order, and whether the storage can be reached. The
  collection is keyed by id, so a well-formed store holds no two records with one id
  (\<open>store_ok\<close>).
\<close>

record vector_store =
  reachable :: bool
  records :: "chunk_record list"

definition store_ok :: "vector_store \<Rightarrow> bool" where
  "store_ok store = distinct (map chunk_id (records store))"

definition unreachable_error :: js_error where
  "unreachable_error = Error ''Failed to connect to chromadb''"

text \<open>
  Modelled from the spec: the operations of the vector storage collaborator that the
  code calls on the collection (the ChromaDB client library, which is not part of the
  sources). The spec describes them as "collection-scoped add/query/get/delete by id or
  metadata filter, and count", each failing when the storage is unreachable:
  \<open>coll_get_where\<close> is \<^verbatim>\<open>coll.get({where: {documentId}})\<close>, \<open>coll_get_all\<close> is \<^verbatim>\<open>coll.get()\<close>,
  \<open>coll_delete\<close> is \<^verbatim>\<open>coll.delete({ids})\<close> and \<open>coll_count\<close> is \<^verbatim>\<open>coll.count()\<close>.
\<close>

definition coll_get_where :: "vector_store \<Rightarrow> string \<Rightarrow> js_error + chunk_record list" where
  "coll_get_where store docId =
     (if reachable store
      then Inr (filter (\<lambda>r. documentId (metadata r) = docId) (records store))
      else Inl unreachable_error)"

definition coll_get_all :: "vector_store \<Rightarrow> js_error + chunk_record list" where
  "coll_get_all store = (if reachable store then Inr (records store) else Inl unreachable_error)"

definition coll_delete :: "vector_store \<Rightarrow> string list \<Rightarrow> js_error + vector_store" where
  "coll_delete store ids =
     (if reachable store
      then Inr (store\<lparr>records := filter (\<lambda>r. chunk_id r \<notin> set ids) (records store)\<rparr>)
      else Inl unreachable_error)"

definition coll_count :: "vector_store \<Rightarrow> js_error + nat" where
  "coll_count store = (if reachable store then Inr (length (records store)) else Inl unreachable_error)"

text \<open>
  \<^verbatim>\<open>deleteDocument(documentId)\<close>: get the ids of the chunks whose metadata names the
  document and, when there are any, delete them by id. The result is the store afterwards.
\<close>

definition deleteDocument :: "vector_store \<Rightarrow> string \<Rightarrow> js_error + vector_store" where
  "deleteDocument store docId =
     (case coll_get_where store docId of
        Inl e \<Rightarrow> Inl e
      | Inr results \<Rightarrow>
          (let ids = map chunk_id results
           in if length ids > 0 then coll_delete store ids else Inr store))"

text \<open>
  \<^verbatim>\<open>listDocuments()\<close>: one row per distinct \<^verbatim>\<open>documentId\<close>, in order of first
  appearance, the fields taken from the first chunk seen. \<open>documentsMap\<close> is the
  insertion-ordered \<^verbatim>\<open>Map\<close>, as the list of its values.
\<close>

record document_summary =
  doc_documentId :: string
  doc_fileName :: string
  doc_uploadedAt :: string
  doc_totalChunks :: nat

fun group_documents :: "chunk_metadata list \<Rightarrow> document_summary list \<Rightarrow> document_summary list" where
  "group_documents [] documentsMap = documentsMap"
| "group_documents (md # mds) documentsMap =
     group_documents mds
       (if documentId md \<in> set (map doc_documentId documentsMap) then documentsMap
        else documentsMap @
          [\<lparr>doc_documentId = documentId md, doc_fileName = fileName md,
            doc_uploadedAt = uploadedAt md, doc_totalChunks = totalChunks md\<rparr>])"

definition listDocuments :: "vector_store \<Rightarrow> js_error + document_summary list" where
  "listDocuments store =
     (case coll_get_all store of
        Inl e \<Rightarrow> Inl e
      | Inr results \<Rightarrow> Inr (group_documents (map metadata results) []))"

record stats =
  st_totalChunks :: nat
  st_totalDocuments :: nat
  st_documents :: "document_summary list"

definition getStats :: "vector_store \<Rightarrow> js_error + stats" where
  "getStats store =
     (case coll_count store of
        Inl e \<Rightarrow> Inl e
      | Inr count \<Rightarrow>
          (case listDocuments store of
             Inl e \<Rightarrow> Inl e
           | Inr documents \<Rightarrow>
               Inr \<lparr>st_totalChunks = count, st_totalDocuments = length documents,
                    st_documents = documents\<rparr>))"

text \<open>
  \<^verbatim>\<open>searchSimilar(queryEmbedding, nResults)\<close>. The nearest-neighbour query of the
  collaborator is a parameter \<open>coll_query\<close>: it rejects, or answers with the rows of the
  first (only) query, each an id, a document text, a metadata object and a distance;
  \<^term>\<open>None\<close> stands for an answer without \<^verbatim>\<open>ids[0]\<close>.
\<close>

record search_hit =
  hit_id :: string
  hit_text :: string
  hit_metadata :: chunk_metadata
  distance :: real

type_synonym query_api = "embedding \<Rightarrow> int \<Rightarrow> js_error + search_hit list option"

definition searchSimilar :: "query_api \<Rightarrow> embedding \<Rightarrow> int \<Rightarrow> js_error + search_hit list" where
  "searchSimilar coll_query queryEmbedding nResults =
     (case coll_query queryEmbedding nResults of
        Inl e \<Rightarrow> Inl e
      | Inr None \<Rightarrow> Inr []
      | Inr (Some rows) \<Rightarrow> Inr rows)"

subsection \<open>Retriever (retriever.js)\<close>

text \<open>
  \<^verbatim>\<open>generateQueryEmbedding(query, apiKey)\<close>: the guard on the key, then one request with
  the query as input; \<^verbatim>\<open>response.data[0].embedding\<close> raises a \<^verbatim>\<open>TypeError\<close> on an empty
  \<^verbatim>\<open>data\<close>. The \<^verbatim>\<open>catch\<close> logs and rethrows.
\<close>

definition generateQueryEmbedding ::
  "embeddings_api \<Rightarrow> string \<Rightarrow> string option \<Rightarrow> js_error + embedding" where
  "generateQueryEmbedding create query apiKey =
     (if falsy apiKey then Inl (Error ''API Key required for generating embeddings'')
      else (case create (the apiKey) (Single query) of
              Inl e \<Rightarrow> Inl e
            | Inr [] \<Rightarrow> Inl (TypeError (''Cannot read properties of undefined (reading '' @
                          [CHR 0x27] @ ''embedding'' @ [CHR 0x27] @ '')''))
            | Inr (d # ds) \<Rightarrow> Inr d))"

text \<open>Decimal digits of a number, as a template literal prints it.\<close>

function show_nat :: "nat \<Rightarrow> string" where
  "show_nat n =
     (if n < 10 then [char_of (48 + n)] else show_nat (n div 10) @ [char_of (48 + n mod 10)])"
  by pat_completeness auto
termination
  by (relation "measure id") auto

declare show_nat.simps [simp del]

text \<open>\<^verbatim>\<open>parts.join(sep)\<close>.\<close>

fun join :: "string \<Rightarrow> string list \<Rightarrow> string" where
  "join sep [] = []"
| "join sep [p] = p"
| "join sep (p # q # ps) = p @ sep @ join sep (q # ps)"

text \<open>\<^verbatim>\<open>[...new Set(xs)]\<close>: the distinct elements in order of first appearance.\<close>

fun set_values :: "'a list \<Rightarrow> 'a list \<Rightarrow> 'a list" where
  "set_values [] seen = seen"
| "set_values (x # xs) seen = set_values xs (if x \<in> set seen then seen else seen @ [x])"

record retrieval_result =
  rr_text :: string
  rr_fileName :: string
  rr_chunkIndex :: nat
  relevanceScore :: real

text \<open>
  The object \<^verbatim>\<open>retrieveContext\<close> returns. A property that the returned object literal
  does not have (\<^verbatim>\<open>results\<close>, \<^verbatim>\<open>error\<close>) is \<^term>\<open>None\<close>.
\<close>

record retrieved_context =
  hasContext :: bool
  rc_context :: string
  sources :: "string list"
  results :: "retrieval_result list option"
  rc_error :: "string option"

definition nl :: char where
  "nl = CHR 0x0A"

definition context_part :: "nat \<times> search_hit \<Rightarrow> string" where
  "context_part p =
     (case p of (index, result) \<Rightarrow>
        ''[Source '' @ show_nat (index + 1) @ '': '' @ fileName (hit_metadata result) @ '']'' @
        [nl] @ hit_text result)"

definition to_result :: "search_hit \<Rightarrow> retrieval_result" where
  "to_result r =
     \<lparr>rr_text = hit_text r, rr_fileName = fileName (hit_metadata r),
      rr_chunkIndex = chunkIndex (hit_metadata r), relevanceScore = 1 - distance r\<rparr>"

text \<open>The body of the \<^verbatim>\<open>try\<close> block of \<^verbatim>\<open>retrieveContext\<close>.\<close>

definition retrieveContext_try ::
  "embeddings_api \<Rightarrow> query_api \<Rightarrow> string \<Rightarrow> int \<Rightarrow> string option \<Rightarrow> js_error + retrieved_context" where
  "retrieveContext_try create coll_query query topK apiKey =
     (case generateQueryEmbedding create query apiKey of
        Inl e \<Rightarrow> Inl e
      | Inr queryEmbedding \<Rightarrow>
          (case searchSimilar coll_query queryEmbedding topK of
             Inl e \<Rightarrow> Inl e
           | Inr hits \<Rightarrow>
               if length hits = 0
               then Inr \<lparr>hasContext = False, rc_context = [], sources = [],
                         results = None, rc_error = None\<rparr>
               else Inr \<lparr>hasContext = True,
                         rc_context =
                           join ([nl, nl] @ ''---'' @ [nl, nl]) (map context_part (enumerate 0 hits)),
                         sources = set_values (map (\<lambda>r. fileName (hit_metadata r)) hits) [],
                         results = Some (map to_result hits),
                         rc_error = None\<rparr>))"

text \<open>
  \<^verbatim>\<open>retrieveContext(query, topK, apiKey)\<close>: the \<^verbatim>\<open>try\<close> block, and the \<^verbatim>\<open>catch\<close> that turns
  whatever was thrown into a returned object carrying \<^verbatim>\<open>error.message\<close>. The result type keeps the
  left injection for a rejection of the \<^verbatim>\<open>async\<close> function itself.
\<close>

definition retrieveContext ::
  "embeddings_api \<Rightarrow> query_api \<Rightarrow> string \<Rightarrow> int \<Rightarrow> string option \<Rightarrow> js_error + retrieved_context" where
  "retrieveContext create coll_query query topK apiKey =
     (case retrieveContext_try create coll_query query topK apiKey of
        Inr found \<Rightarrow> Inr found
      | Inl e \<Rightarrow>
          Inr \<lparr>hasContext = False, rc_context = [], sources = [],
               results = None, rc_error = Some (message e)\<rparr>)"

text \<open>
  Names for two returned objects: the one of the \<^verbatim>\<open>catch\<close> with a given message, and the
  one for an empty search result.
\<close>

definition error_context :: "string \<Rightarrow> retrieved_context" where
  "error_context msg =
     \<lparr>hasContext = False, rc_context = [], sources = [], results = None, rc_error = Some msg\<rparr>"

definition no_context :: retrieved_context where
  "no_context =
     \<lparr>hasContext = False, rc_context = [], sources = [], results = None, rc_error = None\<rparr>"

definition formatContextForAI :: "retrieved_context \<Rightarrow> string" where
  "formatContextForAI retrievedContext =
     (if \<not> hasContext retrievedContext then []
      else ([nl, nl] @ ''**AVAILABLE REFERENCE MATERIALS:**'' @ [nl]) @
           (''Sources: '' @ join '', '' (sources retrievedContext) @ [nl, nl]) @
           rc_context retrievedContext @
           ([nl, nl] @ ''**INSTRUCTIONS FOR USING MATERIALS:**'' @ [nl] @
            ''- Use the above materials when relevant to the question'' @ [nl] @
            ''- Cite the source when using specific examples or information'' @ [nl] @
            ''- Combine material knowledge with general IELTS expertise'' @ [nl] @
            ''- Provide both material-based and general examples when appropriate'' @ [nl]))"

subsection \<open>Server: \<^verbatim>\<open>/api/search\<close> (server.js)\<close>

text \<open>\<^verbatim>\<open>a || b\<close> on optional strings, and \<^verbatim>\<open>getApiKey(req)\<close>.\<close>

definition or_else :: "string option \<Rightarrow> string option \<Rightarrow> string option" where
  "or_else a b = (if falsy a then b else a)"

definition getApiKey :: "string option \<Rightarrow> string option \<Rightarrow> string option" where
  "getApiKey sessionKey envKey = or_else sessionKey envKey"

text \<open>
  An HTTP reply is a status and the JSON body. \<^verbatim>\<open>res.json\<close> serialises with
  \<^verbatim>\<open>JSON.stringify\<close>, which leaves out a property whose value is \<^verbatim>\<open>undefined\<close>: in the body
  of a successful search, \<^term>\<open>None\<close> in \<open>so_results\<close> is the absent property.
\<close>

record search_ok =
  so_success :: bool
  so_query :: string
  so_hasContext :: bool
  so_sources :: "string list"
  so_results :: "retrieval_result list option"

datatype search_body = SearchError string "string option" | SearchOk search_ok

record 'b http_reply =
  status :: nat
  body :: 'b

text \<open>
  The handler of \<^verbatim>\<open>POST /api/search\<close>; \<open>query\<close> and \<open>topK\<close> are the properties of
  \<^verbatim>\<open>req.body\<close> (\<^verbatim>\<open>topK\<close> defaults to 3 when it is \<^verbatim>\<open>undefined\<close>).
\<close>

definition api_search ::
  "embeddings_api \<Rightarrow> query_api \<Rightarrow> string option \<Rightarrow> string option \<Rightarrow>
   string option \<Rightarrow> int option \<Rightarrow> search_body http_reply" where
  "api_search create coll_query sessionKey envKey query topK =
     (if falsy query then \<lparr>status = 400, body = SearchError ''Query is required'' None\<rparr>
      else (case retrieveContext create coll_query (the query)
                   (case topK of None \<Rightarrow> 3 | Some k \<Rightarrow> k) (getApiKey sessionKey envKey) of
              Inl e \<Rightarrow> \<lparr>status = 500, body = SearchError ''Search failed'' (Some (message e))\<rparr>
            | Inr found \<Rightarrow>
                \<lparr>status = 200,
                 body = SearchOk \<lparr>so_success = True, so_query = the query,
                                  so_hasContext = hasContext found, so_sources = sources found,
                                  so_results = results found\<rparr>\<rparr>))"

subsection \<open>Session negotiator: \<^verbatim>\<open>/api/realtime/call\<close>\<close>

text \<open>
  The property \<^verbatim>\<open>config\<close> of the request body, the session configuration sent to the
  conversational collaborator (the fixed audio, transcription and turn-detection
  parameters are constants of the source and are left out), and the collaborator's answer:
  \<^verbatim>\<open>data.id\<close>, \<^verbatim>\<open>data.client_secret\<close> (the ephemeral credential) and \<^verbatim>\<open>data.expires_at\<close>.
\<close>

record client_config =
  cfg_model :: "string option"
  cfg_voice :: "string option"
  cfg_instructions :: "string option"

record session_config =
  model :: string
  voice :: string
  instructions :: string

record credential =
  secret_value :: string
  secret_expires_at :: nat

record session_data =
  sd_id :: string
  sd_client_secret :: credential
  sd_expires_at :: nat

text \<open>
  The answer of \<^verbatim>\<open>fetch\<close>: \<^verbatim>\<open>response.ok\<close>, \<^verbatim>\<open>response.status\<close>, \<^verbatim>\<open>await response.text()\<close>
  and \<^verbatim>\<open>await response.json()\<close> (which rejects on a body that is not JSON). The session
  endpoint is a parameter: given the API key and the configuration, \<^verbatim>\<open>fetch\<close> rejects or
  answers.
\<close>

record fetch_response =
  resp_ok :: bool
  resp_status :: nat
  resp_text :: string
  resp_json :: "js_error + session_data"

type_synonym sessions_api = "string \<Rightarrow> session_config \<Rightarrow> js_error + fetch_response"

text \<open>
  The logging sink: one entry per call of \<^verbatim>\<open>console.log\<close>, \<^verbatim>\<open>console.warn\<close> or
  \<^verbatim>\<open>console.error\<close>, with its arguments. An argument that is the credential object is
  \<open>LSecret\<close>.
\<close>

datatype log_arg = LStr string | LNum nat | LErr js_error | LSecret credential

datatype log_level = ConsoleLog | ConsoleWarn | ConsoleError

type_synonym log_entry = "log_level \<times> log_arg list"

text \<open>
  The JSON body of the reply: an error object (its string properties), or the session:
  \<^verbatim>\<open>{sessionId, clientSecret, expiresAt}\<close>.
\<close>

datatype call_body = CallError "(string \<times> string) list" | CallSession string credential nat

definition or_default :: "string option \<Rightarrow> string \<Rightarrow> string" where
  "or_default a d = (if falsy a then d else the a)"

text \<open>
  The handler of \<^verbatim>\<open>server.js\<close>, behind the middleware \<^verbatim>\<open>requireApiKey\<close>. The base
  instruction text \<^verbatim>\<open>IELTS_INSTRUCTIONS\<close> is a parameter. The inner \<^verbatim>\<open>try\<close> enriches the
  instructions from the retriever and logs which way it went (the leading pictograph of
  the two messages is left out); the console output of the retriever itself, which
  comes before any credential exists, is not part of this log. Whatever the outer
  \<^verbatim>\<open>try\<close> throws (a rejected \<^verbatim>\<open>fetch\<close>, a body that is not JSON) is caught, logged and
  answered with status 500. The result is the console output in order and the reply.
\<close>

definition realtime_call ::
  "string \<Rightarrow> embeddings_api \<Rightarrow> query_api \<Rightarrow> sessions_api \<Rightarrow>
   string option \<Rightarrow> string option \<Rightarrow> client_config \<Rightarrow> log_entry list \<times> call_body http_reply" where
  "realtime_call IELTS_INSTRUCTIONS create coll_query sessions sessionKey envKey config =
     (let apiKey = getApiKey sessionKey envKey
      in if falsy apiKey
         then ([], \<lparr>status = 401,
                    body = CallError [(''error'', ''API key not configured''),
                                      (''message'', ''Please provide your OpenAI API key to continue'')]\<rparr>)
         else
           (let base = or_default (cfg_instructions config) IELTS_INSTRUCTIONS;
                enriched =
                  (case retrieveContext create coll_query
                          ''IELTS speaking test questions and examples'' 3 apiKey of
                     Inr materialContext \<Rightarrow>
                       if hasContext materialContext
                       then (base @ formatContextForAI materialContext,
                             [(ConsoleLog, [LStr (''Injected context from '' @
                                 show_nat (length (sources materialContext)) @ '' material(s)'')])])
                       else (base,
                             [(ConsoleLog, [LStr ''No materials available, using base instructions''])])
                   | Inl e \<Rightarrow>
                       (base,
                        [(ConsoleWarn, [LStr ''Warning: Could not retrieve context from materials:'',
                                        LStr (message e)])]));
                sessionConfig =
                  \<lparr>model = or_default (cfg_model config) ''gpt-4o-mini-realtime-preview-2024-12-17'',
                   voice = or_default (cfg_voice config) ''alloy'',
                   instructions = fst enriched\<rparr>;
                started = snd enriched @
                  [(ConsoleLog, [LStr ''Creating Realtime session with OpenAI...'']),
                   (ConsoleLog, [LStr ''Model:'', LStr (model sessionConfig)]),
                   (ConsoleLog, [LStr ''Voice:'', LStr (voice sessionConfig)])];
                caught = (\<lambda>e.
                  (started @ [(ConsoleError, [LStr ''Error creating Realtime session:'', LErr e])],
                   \<lparr>status = 500,
                    body = CallError [(''error'', ''Internal server error''),
                                      (''message'', message e)]\<rparr>))
            in case sessions (the apiKey) sessionConfig of
                 Inl e \<Rightarrow> caught e
               | Inr response \<Rightarrow>
                   if \<not> resp_ok response
                   then (started @
                           [(ConsoleError, [LStr ''OpenAI API Error:'', LNum (resp_status response),
                                            LStr (resp_text response)])],
                         \<lparr>status = resp_status response,
                          body = CallError [(''error'', ''Failed to create Realtime session''),
                                            (''details'', resp_text response)]\<rparr>)
                   else (case resp_json response of
                           Inl e \<Rightarrow> caught e
                         | Inr data \<Rightarrow>
                             (started @
                                [(ConsoleLog, [LStr ''Session created successfully'']),
                                 (ConsoleLog, [LStr ''Session ID:'', LStr (sd_id data)])],
                              \<lparr>status = 200,
                               body = CallSession (sd_id data) (sd_client_secret data)
                                        (sd_expires_at data)\<rparr>))))"

text \<open>
  The handler of the earlier server file: the key comes from the environment only, there
  is no retrieval, and after \<^verbatim>\<open>console.log('Session ID:', data.id)\<close> comes
  \<^verbatim>\<open>console.log('Client Secret:', data.client_secret)\<close>.
\<close>

definition realtime_call_legacy ::
  "string \<Rightarrow> sessions_api \<Rightarrow> string option \<Rightarrow> client_config \<Rightarrow>
   log_entry list \<times> call_body http_reply" where
  "realtime_call_legacy IELTS_INSTRUCTIONS sessions envKey config =
     (let apiKey = envKey
      in if falsy apiKey
         then ([], \<lparr>status = 500,
                    body = CallError [(''error'', ''OpenAI API key not configured'')]\<rparr>)
         else
           (let sessionConfig =
                  \<lparr>model = or_default (cfg_model config) ''gpt-4o-realtime-preview-2024-12-17'',
                   voice = or_default (cfg_voice config) ''alloy'',
                   instructions = or_default (cfg_instructions config) IELTS_INSTRUCTIONS\<rparr>;
                started =
                  [(ConsoleLog, [LStr ''Creating Realtime session with OpenAI...'']),
                   (ConsoleLog, [LStr ''Model:'', LStr (model sessionConfig)]),
                   (ConsoleLog, [LStr ''Voice:'', LStr (voice sessionConfig)])];
                caught = (\<lambda>e.
                  (started @ [(ConsoleError, [LStr ''Error creating Realtime session:'', LErr e])],
                   \<lparr>status = 500,
                    body = CallError [(''error'', ''Internal server error''),
                                      (''message'', message e)]\<rparr>))
            in case sessions (the apiKey) sessionConfig of
                 Inl e \<Rightarrow> caught e
               | Inr response \<Rightarrow>
                   if \<not> resp_ok response
                   then (started @
                           [(ConsoleError, [LStr ''OpenAI API Error:'', LNum (resp_status response),
                                            LStr (resp_text response)])],
                         \<lparr>status = resp_status response,
                          body = CallError [(''error'', ''Failed to create Realtime session''),
                                            (''details'', resp_text response)]\<rparr>)
                   else (case resp_json response of
                           Inl e \<Rightarrow> caught e
                         | Inr data \<Rightarrow>
                             (started @
                                [(ConsoleLog, [LStr ''Session created successfully'']),
                                 (ConsoleLog, [LStr ''Session ID:'', LStr (sd_id data)]),
                                 (ConsoleLog, [LStr ''Client Secret:'',
                                               LSecret (sd_client_secret data)])],
                              \<lparr>status = 200,
                               body = CallSession (sd_id data) (sd_client_secret data)
                                        (sd_expires_at data)\<rparr>))))"

text \<open>The credentials that reach the logging sink.\<close>

fun logged_secret :: "log_arg \<Rightarrow> credential option" where
  "logged_secret (LSecret c) = Some c"
| "logged_secret a = None"

definition logged_secrets :: "log_entry list \<Rightarrow> credential list" where
  "logged_secrets logs = List.map_filter logged_secret (concat (map snd logs))"

subsection \<open>Turn controller: the browser client\<close>

text \<open>
  The client keeps its state in the object \<^verbatim>\<open>state\<close>, the module variable
  \<^verbatim>\<open>currentAssistantTranscript\<close> and the page. The record holds what the push-to-talk
  functions and the event handlers read or write:
  \<^item> \<^verbatim>\<open>state.isConnected\<close>, \<^verbatim>\<open>state.isTalking\<close>, \<^verbatim>\<open>state.currentPart\<close>, \<^verbatim>\<open>state.turnCount\<close>;
  \<^item> \<^verbatim>\<open>state.conversationHistory\<close>, one (role, content) pair per \<^verbatim>\<open>addLogEntry\<close> (the
    time stamp of an entry is left out; the log element of the page receives the same
    entries);
  \<^item> \<^verbatim>\<open>state.dataChannel\<close>: \<^term>\<open>None\<close> for \<^verbatim>\<open>null\<close>, else its \<^verbatim>\<open>readyState\<close>; \<open>sent\<close> is
    what was handed to \<^verbatim>\<open>dataChannel.send\<close>, in order (the outbound events);
  \<^item> \<^verbatim>\<open>state.localStream\<close>: \<^term>\<open>None\<close> for \<^verbatim>\<open>null\<close>, else the \<^verbatim>\<open>enabled\<close> flag of each
    audio track;
  \<^item> of the page: \<^verbatim>\<open>remoteAudio.muted\<close>, the class \<^verbatim>\<open>talking\<close> and the label of the talk
    button, the current question, and the text shown in the live transcript, feedback
    and sample answer panels (\<^term>\<open>None\<close> while a panel shows its placeholder) and the
    part badge.
  Console output of the client is not modelled.
\<close>

datatype ready_state = Connecting | Open | Closing | Closed

datatype outbound_event = ResponseCreate | ResponseCancel | InputAudioBufferCommit

record client_state =
  isConnected :: bool
  isTalking :: bool
  currentPart :: nat
  turnCount :: nat
  conversationHistory :: "(string \<times> string) list"
  dataChannel :: "ready_state option"
  sent :: "outbound_event list"
  localStream :: "bool list option"
  remoteAudioMuted :: bool
  talkButtonTalking :: bool
  talkButtonText :: string
  currentAssistantTranscript :: string
  currentQuestion :: string
  liveTranscript :: "string option"
  feedbackContent :: "string option"
  sampleAnswer :: "string option"
  partBadge :: string

definition sendEvent :: "outbound_event \<Rightarrow> client_state \<Rightarrow> client_state" where
  "sendEvent event s = (if dataChannel s = Some Open then s\<lparr>sent := sent s @ [event]\<rparr> else s)"

definition addLogEntry :: "string \<Rightarrow> string \<Rightarrow> client_state \<Rightarrow> client_state" where
  "addLogEntry role content s = s\<lparr>conversationHistory := conversationHistory s @ [(role, content)]\<rparr>"

text \<open>
  \<^verbatim>\<open>toLowerCase()\<close> on code units below 256, \<^verbatim>\<open>includes\<close>, and the match of
  \<^verbatim>\<open>/sample answer[:\s]+(.*?)(?=\n\n|$)/is\<close>: the first place where the words stand
  (in any case) followed by a colon or white space; the group is what follows the run of
  colons and white space, up to the first blank line or the end.
\<close>

definition to_lower :: "char \<Rightarrow> char" where
  "to_lower c =
     (let n = (of_char c :: nat)
      in if (65 \<le> n \<and> n \<le> 90) \<or> (192 \<le> n \<and> n \<le> 222 \<and> n \<noteq> 215) then char_of (n + 32) else c)"

definition starts_with :: "string \<Rightarrow> string \<Rightarrow> bool" where
  "starts_with s p = (take (length p) s = p)"

fun js_includes :: "string \<Rightarrow> string \<Rightarrow> bool" where
  "js_includes [] p = (p = [])"
| "js_includes (c # cs) p = (starts_with (c # cs) p \<or> js_includes cs p)"

fun until_blank_line :: "string \<Rightarrow> string" where
  "until_blank_line [] = []"
| "until_blank_line (c # cs) =
     (if starts_with (c # cs) [nl, nl] then [] else c # until_blank_line cs)"

definition colon_or_space :: "char \<Rightarrow> bool" where
  "colon_or_space c = (c = CHR '':'' \<or> is_space c)"

fun sample_match :: "string \<Rightarrow> string option" where
  "sample_match [] = None"
| "sample_match (c # cs) =
     (if starts_with (map to_lower (c # cs)) ''sample answer'' \<and>
         (case drop 13 (c # cs) of [] \<Rightarrow> False | d # ds \<Rightarrow> colon_or_space d)
      then Some (until_blank_line (dropWhile colon_or_space (drop 13 (c # cs))))
      else sample_match cs)"

definition parseFeedback :: "string \<Rightarrow> client_state \<Rightarrow> client_state" where
  "parseFeedback transcript s =
     (let lowerText = map to_lower transcript;
          s1 = (if js_includes lowerText ''band'' \<or> js_includes lowerText ''feedback''
                then s\<lparr>feedbackContent := Some transcript\<rparr> else s);
          s2 = (if js_includes lowerText ''sample'' \<or> js_includes lowerText ''example answer''
                then (case sample_match transcript of
                        Some sampleMatch \<Rightarrow> s1\<lparr>sampleAnswer := Some (trim sampleMatch)\<rparr>
                      | None \<Rightarrow> s1)
                else s1)
      in if js_includes lowerText ''part 2'' \<or> js_includes lowerText ''task card''
         then s2\<lparr>currentPart := 2, partBadge := ''Part 2''\<rparr>
         else if js_includes lowerText ''part 3''
         then s2\<lparr>currentPart := 3, partBadge := ''Part 3''\<rparr>
         else s2)"

definition handleAssistantTranscriptDelta :: "string \<Rightarrow> client_state \<Rightarrow> client_state" where
  "handleAssistantTranscriptDelta delta s =
     s\<lparr>currentAssistantTranscript := currentAssistantTranscript s @ delta\<rparr>"

definition handleAssistantTranscriptDone :: "string \<Rightarrow> client_state \<Rightarrow> client_state" where
  "handleAssistantTranscriptDone transcript s =
     parseFeedback transcript
       (addLogEntry ''examiner'' transcript
          (s\<lparr>currentAssistantTranscript := [], currentQuestion := transcript\<rparr>))"

definition handleUserTranscript :: "string \<Rightarrow> client_state \<Rightarrow> client_state" where
  "handleUserTranscript transcript s =
     addLogEntry ''user'' transcript (s\<lparr>liveTranscript := Some transcript\<rparr>)"

text \<open>
  The messages of the event channel, by their \<^verbatim>\<open>type\<close>, with the property the handler
  reads; \<open>ErrorEvent\<close> carries \<^verbatim>\<open>event.error.message\<close>.
\<close>

datatype realtime_event =
    SessionCreated
  | SessionUpdated
  | ConversationItemCreated
  | AudioTranscriptDelta string
  | AudioTranscriptDone string
  | InputAudioTranscriptionCompleted string
  | InputAudioTranscriptionFailed
  | ResponseDone
  | ErrorEvent "string option"
  | OtherEvent string

fun handleRealtimeEvent :: "realtime_event \<Rightarrow> client_state \<Rightarrow> client_state" where
  "handleRealtimeEvent SessionCreated s = s"
| "handleRealtimeEvent SessionUpdated s = s"
| "handleRealtimeEvent ConversationItemCreated s = s"
| "handleRealtimeEvent (AudioTranscriptDelta delta) s = handleAssistantTranscriptDelta delta s"
| "handleRealtimeEvent (AudioTranscriptDone transcript) s = handleAssistantTranscriptDone transcript s"
| "handleRealtimeEvent (InputAudioTranscriptionCompleted transcript) s =
     handleUserTranscript transcript s"
| "handleRealtimeEvent InputAudioTranscriptionFailed s = s"
| "handleRealtimeEvent ResponseDone s = s\<lparr>turnCount := turnCount s + 1\<rparr>"
| "handleRealtimeEvent (ErrorEvent m) s =
     addLogEntry ''system'' (''Error: '' @ or_default m ''Unknown error'') s"
| "handleRealtimeEvent (OtherEvent t) s = s"

definition startTalking :: "client_state \<Rightarrow> client_state" where
  "startTalking s =
     (if \<not> isConnected s \<or> isTalking s then s
      else (let s1 = s\<lparr>isTalking := True, talkButtonTalking := True,
                       talkButtonText := ''Speaking...''\<rparr>;
                s2 = sendEvent ResponseCancel s1;
                s3 = s2\<lparr>remoteAudioMuted := True\<rparr>;
                s4 = s3\<lparr>localStream := map_option (map (\<lambda>enabled. True)) (localStream s3)\<rparr>
            in sendEvent InputAudioBufferCommit s4))"

definition stopTalking :: "client_state \<Rightarrow> client_state" where
  "stopTalking s =
     (if \<not> isConnected s \<or> \<not> isTalking s then s
      else sendEvent ResponseCreate
             (s\<lparr>isTalking := False, talkButtonTalking := False,
                talkButtonText := ''Hold to Talk'', remoteAudioMuted := False\<rparr>))"

text \<open>
  \<^verbatim>\<open>dataChannel.onopen\<close>: the channel has become open; the handler logs it and asks for
  the examiner's opening turn.
\<close>

definition dataChannel_onopen :: "client_state \<Rightarrow> client_state" where
  "dataChannel_onopen s =
     sendEvent ResponseCreate
       (addLogEntry ''system'' ''Data channel established'' (s\<lparr>dataChannel := Some Open\<rparr>))"

text \<open>
  The events the controller reacts to, one at a time: the channel opening, a message on
  the channel, and the press and release of the talk button.
\<close>

datatype controller_event =
    ChannelOpen
  | Message realtime_event
  | StartTalking
  | StopTalking

fun controller_step :: "client_state \<Rightarrow> controller_event \<Rightarrow> client_state" where
  "controller_step s ChannelOpen = dataChannel_onopen s"
| "controller_step s (Message event) = handleRealtimeEvent event s"
| "controller_step s StartTalking = startTalking s"
| "controller_step s StopTalking = stopTalking s"

definition controller_run :: "client_state \<Rightarrow> controller_event list \<Rightarrow> client_state" where
  "controller_run s events = foldl controller_step s events"

text \<open>
  The state a successful \<^verbatim>\<open>startInterview\<close> leaves behind, before the channel opens: the
  initial values of \<^verbatim>\<open>state\<close> and of the page, with \<^verbatim>\<open>isConnected\<close> set, a data channel
  that is still connecting, one enabled microphone track, and the two log entries of
  \<^verbatim>\<open>startInterview\<close> in the history.
\<close>

definition connected_state :: client_state where
  "connected_state =
     \<lparr>isConnected = True, isTalking = False, currentPart = 1, turnCount = 0,
      conversationHistory =
        [(''system'', ''Microphone access granted''),
         (''system'', ''Connected to IELTS Examiner. The interview will begin shortly.'')],
      dataChannel = Some Connecting, sent = [], localStream = Some [True],
      remoteAudioMuted = False, talkButtonTalking = False, talkButtonText = ''Hold to Talk'',
      currentAssistantTranscript = [],
      currentQuestion = ''Waiting for examiner to start...'',
      liveTranscript = None, feedbackContent = None, sampleAnswer = None,
      partBadge = ''Part 1''\<rparr>"

subsection \<open>The turn states of the specification\<close>

text \<open>
  The code has no variable for the turn state. For comparison, the state machine as the
  specification words it: \<open>Idle\<close> when the channel opens, at once asking for the opening
  agent turn (\<open>AwaitingAgentResponse\<close>); a transcript fragment in \<open>AwaitingAgentResponse\<close>
  or \<open>AgentSpeaking\<close> leads to \<open>AgentSpeaking\<close>; a completed transcript returns to \<open>Idle\<close>,
  and is dropped when no agent turn is in flight; "start talking" is permitted in \<open>Idle\<close>
  and \<open>AgentSpeaking\<close> and leads to \<open>ListeningToUser\<close>; "stop talking" in
  \<open>ListeningToUser\<close> leads to \<open>AwaitingAgentResponse\<close>. Any other event leaves the state as
  it is.
\<close>

datatype turn_state = Idle | ListeningToUser | AwaitingAgentResponse | AgentSpeaking

fun spec_turn :: "turn_state \<Rightarrow> controller_event \<Rightarrow> turn_state" where
  "spec_turn st ChannelOpen = (if st = Idle then AwaitingAgentResponse else st)"
| "spec_turn st (Message event) =
     (case event of
        AudioTranscriptDelta d \<Rightarrow>
          if st = AwaitingAgentResponse \<or> st = AgentSpeaking then AgentSpeaking else st
      | AudioTranscriptDone t \<Rightarrow>
          if st = AwaitingAgentResponse \<or> st = AgentSpeaking then Idle else st
      | _ \<Rightarrow> st)"
| "spec_turn st StartTalking = (if st = Idle \<or> st = AgentSpeaking then ListeningToUser else st)"
| "spec_turn st StopTalking = (if st = ListeningToUser then AwaitingAgentResponse else st)"

definition spec_turn_run :: "controller_event list \<Rightarrow> turn_state" where
  "spec_turn_run events = foldl spec_turn Idle events"

subsection \<open>Concrete collaborators and states for the examples\<close>

text \<open>
  An embedding collaborator that answers each text with the one-dimensional vector of its
  length, and one that rejects every request; an index that finds nothing, and one that
  cannot be reached; 23 texts, so that a second batch starts at position 20.
\<close>

definition length_embedder :: embeddings_api where
  "length_embedder key input =
     (case input of Single t \<Rightarrow> Inr [[real (length t)]]
      | Batch ts \<Rightarrow> Inr (map (\<lambda>t. [real (length t)]) ts))"

definition failing_embedder :: embeddings_api where
  "failing_embedder key input = Inl (Error ''429 Too Many Requests'')"

definition empty_index :: query_api where
  "empty_index queryEmbedding nResults = Inr (Some [])"

definition failing_index :: query_api where
  "failing_index queryEmbedding nResults = Inl unreachable_error"

definition sample_texts :: "string list" where
  "sample_texts = map (\<lambda>n. replicate n (CHR ''x'')) [1 ..< 24]"

text \<open>
  A store with two chunks of \<open>doc_1\<close> and one of \<open>doc_2\<close>, with the ids \<^verbatim>\<open>addDocuments\<close>
  gives them.
\<close>

definition sample_record :: "string \<Rightarrow> nat \<Rightarrow> nat \<Rightarrow> string \<Rightarrow> chunk_record" where
  "sample_record docId index n txt =
     \<lparr>chunk_id = docId @ ''_chunk_'' @ show_nat index,
      chunk_embedding = [real (length txt)],
      metadata = \<lparr>documentId = docId, chunkIndex = index, totalChunks = n,
                  fileName = ''notes.pdf'', uploadedAt = ''2024-01-01T00:00:00.000Z'',
                  md_text = txt\<rparr>,
      document = txt\<rparr>"

definition sample_store :: vector_store where
  "sample_store =
     \<lparr>reachable = True,
      records = [sample_record ''doc_1'' 0 2 ''alpha'', sample_record ''doc_2'' 0 1 ''beta'',
                 sample_record ''doc_1'' 1 2 ''gamma'']\<rparr>"

text \<open>A session endpoint that grants every request, and a request without overrides.\<close>

definition sample_secret :: credential where
  "sample_secret = \<lparr>secret_value = ''ek_abc123'', secret_expires_at = 1700000060\<rparr>"

definition granting_sessions :: sessions_api where
  "granting_sessions apiKey sessionConfig =
     Inr \<lparr>resp_ok = True, resp_status = 200, resp_text = [],
          resp_json = Inr \<lparr>sd_id = ''sess_001'', sd_client_secret = sample_secret,
                           sd_expires_at = 1700000060\<rparr>\<rparr>"

definition default_config :: client_config where
  "default_config = \<lparr>cfg_model = None, cfg_voice = None, cfg_instructions = None\<rparr>"

text \<open>
  Three states of the client: after the channel has opened (the opening agent turn has
  been asked for), after a first transcript fragment of the agent, and after the user has
  pressed the talk button in the first of them.
\<close>

definition awaiting_state :: client_state where
  "awaiting_state = controller_run connected_state [ChannelOpen]"

definition speaking_state :: client_state where
  "speaking_state =
     controller_run connected_state [ChannelOpen, Message (AudioTranscriptDelta ''Good morning'')]"

definition talking_state :: client_state where
  "talking_state = controller_run connected_state [ChannelOpen, StartTalking]"

section \<open>Part II: properties\<close>

subsection \<open>Chunker\<close>

lemma js_slice_inner:
  "0 \<le> a \<Longrightarrow> a \<le> b \<Longrightarrow> b \<le> int (length s) \<Longrightarrow>
   js_slice s a b = take (nat (b - a)) (drop (nat a) s)"
  by (simp add: js_slice_def Let_def min_def max_def)

lemma lastIndexOf_less: "lastIndexOf s c < int (length s)"
  by (cases "c \<in> set s") (auto simp: lastIndexOf_def)

text \<open>The last pass of the loop: the window reaches the end of the text.\<close>

lemma chunk_step_final:
  assumes st: "0 \<le> startIndex" "startIndex < int (length cleanText)"
    and fin: "int (length cleanText) \<le> startIndex + chunkSize"
  shows "chunk_step cleanText chunkSize overlap startIndex =
           (drop (nat startIndex) cleanText, int (length cleanText))"
proof -
  have e: "min (startIndex + chunkSize) (int (length cleanText)) = int (length cleanText)"
    using fin by simp
  have "js_slice cleanText startIndex (int (length cleanText)) = drop (nat startIndex) cleanText"
    using st by (simp add: js_slice_inner)
  then show ?thesis
    by (simp add: chunk_step_def e)
qed

text \<open>A pass whose window ends inside the text: either cut or slide.\<close>

lemma chunk_step_inner:
  assumes st: "0 \<le> startIndex"
    and inner: "startIndex + chunkSize < int (length cleanText)"
    and cs: "0 < chunkSize"
  shows "\<exists>breakPoint. breakPoint < chunkSize \<and>
           chunk_step cleanText chunkSize overlap startIndex =
           (if 2 * breakPoint > chunkSize
            then (take (nat (breakPoint + 1)) (drop (nat startIndex) cleanText),
                  startIndex + (breakPoint + 1))
            else (take (nat chunkSize) (drop (nat startIndex) cleanText),
                  startIndex + (chunkSize - overlap)))"
proof -
  define chunk where "chunk = take (nat chunkSize) (drop (nat startIndex) cleanText)"
  define breakPoint where
    "breakPoint = max (lastIndexOf chunk (CHR ''.'')) (lastIndexOf chunk (CHR 0x0A))"
  have e: "min (startIndex + chunkSize) (int (length cleanText)) = startIndex + chunkSize"
    using inner by simp
  have sl: "js_slice cleanText startIndex (startIndex + chunkSize) = chunk"
    using st inner cs by (simp add: js_slice_inner chunk_def)
  have len: "int (length chunk) = chunkSize"
    using st inner cs by (simp add: chunk_def min_def)
  have bp: "breakPoint < chunkSize"
    using lastIndexOf_less [of chunk "CHR ''.''"] lastIndexOf_less [of chunk "CHR 0x0A"] len
    by (simp add: breakPoint_def)
  have cut: "js_slice chunk 0 (breakPoint + 1) =
      take (nat (breakPoint + 1)) (drop (nat startIndex) cleanText)"
    if "2 * breakPoint > chunkSize"
  proof -
    have "0 \<le> breakPoint + 1" "breakPoint + 1 \<le> int (length chunk)"
      using that bp cs len by simp_all
    then have "js_slice chunk 0 (breakPoint + 1) = take (nat (breakPoint + 1)) chunk"
      by (simp add: js_slice_inner)
    also have "\<dots> = take (nat (breakPoint + 1)) (drop (nat startIndex) cleanText)"
      using bp by (simp add: chunk_def min_def)
    finally show ?thesis .
  qed
  have "chunk_step cleanText chunkSize overlap startIndex =
           (if 2 * breakPoint > chunkSize
            then (take (nat (breakPoint + 1)) (drop (nat startIndex) cleanText),
                  startIndex + (breakPoint + 1))
            else (take (nat chunkSize) (drop (nat startIndex) cleanText),
                  startIndex + (chunkSize - overlap)))"
    using inner cut
    by (simp add: chunk_step_def e sl Let_def breakPoint_def [symmetric]) (simp add: chunk_def)
  with bp show ?thesis by blast
qed

text \<open>
  What one pass guarantees: the chunk is the slice of the text at the start index, it is
  no longer than \<open>chunkSize\<close>, the next start index lies within or right after it, and
  the pass either is the last one or advances by at least \<open>min_advance\<close>.
\<close>

lemma chunk_step_facts:
  assumes ov: "0 \<le> overlap" "overlap < chunkSize"
    and st: "0 \<le> startIndex" "startIndex < int (length cleanText)"
    and cs: "chunk_step cleanText chunkSize overlap startIndex = (chunk, startIndex')"
  shows "chunk = take (length chunk) (drop (nat startIndex) cleanText) \<and>
    int (length chunk) \<le> chunkSize \<and>
    startIndex' \<le> startIndex + int (length chunk) \<and>
    startIndex + int (length chunk) \<le> int (length cleanText) \<and>
    (startIndex' = int (length cleanText) \<and>
       startIndex + int (length chunk) = int (length cleanText)
     \<or> startIndex + min_advance chunkSize overlap \<le> startIndex')"
proof (cases "startIndex + chunkSize < int (length cleanText)")
  case False
  then have "chunk_step cleanText chunkSize overlap startIndex =
         (drop (nat startIndex) cleanText, int (length cleanText))"
    using st by (intro chunk_step_final) simp_all
  with cs have c: "chunk = drop (nat startIndex) cleanText"
    and s: "startIndex' = int (length cleanText)"
    by simp_all
  show ?thesis using False st by (simp add: c s)
next
  case True
  from chunk_step_inner [OF st(1) True, of overlap] ov
  obtain breakPoint where bp: "breakPoint < chunkSize"
    and eq: "chunk_step cleanText chunkSize overlap startIndex =
         (if 2 * breakPoint > chunkSize
          then (take (nat (breakPoint + 1)) (drop (nat startIndex) cleanText),
                startIndex + (breakPoint + 1))
          else (take (nat chunkSize) (drop (nat startIndex) cleanText),
                startIndex + (chunkSize - overlap)))"
    by auto
  show ?thesis
  proof (cases "2 * breakPoint > chunkSize")
    case cut: True
    with eq cs have c: "chunk = take (nat (breakPoint + 1)) (drop (nat startIndex) cleanText)"
      and s: "startIndex' = startIndex + (breakPoint + 1)" by simp_all
    have l: "int (length chunk) = breakPoint + 1"
      using True bp st cut ov by (simp add: c min_def)
    have "chunkSize div 2 + 2 \<le> breakPoint + 1" using cut by linarith
    then show ?thesis using l bp True
      by (simp add: s min_advance_def) (simp add: c)
  next
    case nocut: False
    with eq cs have c: "chunk = take (nat chunkSize) (drop (nat startIndex) cleanText)"
      and s: "startIndex' = startIndex + (chunkSize - overlap)" by simp_all
    have l: "int (length chunk) = chunkSize"
      using True st ov by (simp add: c min_def)
    show ?thesis using l True ov
      by (simp add: s min_advance_def) (simp add: c)
  qed
qed

lemma takeWhile_all_nth: "i < length (takeWhile P xs) \<Longrightarrow> P (xs ! i)"
  by (metis nth_mem set_takeWhileD takeWhile_nth)

text \<open>
  \<open>trim s\<close> is a slice of \<open>s\<close>, and every position of \<open>s\<close> that holds no white space lies
  in it.
\<close>

lemma trim_window:
  "\<exists>off. trim s = take (length (trim s)) (drop off s) \<and> off + length (trim s) \<le> length s \<and>
     (\<forall>j < length s. \<not> is_space (s ! j) \<longrightarrow> off \<le> j \<and> j < off + length (trim s))"
proof -
  define off where "off = length (takeWhile is_space s)"
  define t where "t = drop off s"
  define e where "e = length (takeWhile is_space (rev t))"
  have t: "dropWhile is_space s = t"
    by (simp add: t_def off_def dropWhile_eq_drop)
  have "trim s = rev (dropWhile is_space (rev t))"
    by (simp only: trim_def t)
  also have "\<dots> = rev (drop e (rev t))"
    by (subst dropWhile_eq_drop) (simp only: e_def)
  also have "\<dots> = take (length t - e) t"
    by (simp add: rev_drop)
  finally have tr: "trim s = take (length t - e) t" .
  have offle: "off \<le> length s"
    by (simp add: off_def length_takeWhile_le)
  have ele: "e \<le> length t"
    using length_takeWhile_le [of is_space "rev t"] by (simp add: e_def)
  have len: "length (trim s) = length t - e"
    by (simp add: tr)
  have 1: "trim s = take (length (trim s)) (drop off s)"
    using tr len by (simp add: t_def)
  have 2: "off + length (trim s) \<le> length s"
    using len offle by (simp add: t_def)
  have 3: "off \<le> j \<and> j < off + length (trim s)"
    if j: "j < length s" and ns: "\<not> is_space (s ! j)" for j
  proof -
    have a: "off \<le> j"
    proof (rule ccontr)
      assume "\<not> off \<le> j"
      then have "j < length (takeWhile is_space s)" by (simp add: off_def)
      then have "is_space (s ! j)" by (rule takeWhile_all_nth)
      with ns show False by simp
    qed
    have b: "j - off < length t - e"
    proof (rule ccontr)
      assume n: "\<not> j - off < length t - e"
      have jt: "j - off < length t" using j a by (simp add: t_def)
      define r where "r = length t - 1 - (j - off)"
      have "r < e" using n jt ele by (simp add: r_def)
      then have "is_space (rev t ! r)" unfolding e_def by (rule takeWhile_all_nth)
      moreover have "rev t ! r = t ! (j - off)"
        using jt by (simp add: rev_nth r_def)
      moreover have "t ! (j - off) = s ! j"
        using a j by (simp add: t_def)
      ultimately show False using ns by simp
    qed
    show ?thesis using a b len by simp
  qed
  show ?thesis using 1 2 3 by blast
qed

lemma covered_mono: "covered t cs i \<Longrightarrow> set cs \<subseteq> set ds \<Longrightarrow> covered t ds i"
  unfolding covered_def by blast

lemma covered_nth_mem:
  assumes "covered t cs i"
  shows "t ! i \<in> set (concat cs)"
proof -
  from assms obtain c off where c: "c \<in> set cs" and o: "off \<le> i" "i < off + length c"
    and eq: "take (length c) (drop off t) = c"
    unfolding covered_def by blast
  have l: "i - off < length c" using o by simp
  have "length c \<le> length t - off"
    using arg_cong [OF eq, of length] by simp
  then have lt: "off + (i - off) < length t" using l by simp
  have "c ! (i - off) = take (length c) (drop off t) ! (i - off)" using eq by simp
  also have "\<dots> = t ! i" using l o lt by simp
  finally have "t ! i = c ! (i - off)" by simp
  then have "t ! i \<in> set c" using l by simp
  with c show ?thesis by auto
qed

text \<open>
  The loop from any start index at or after 0, by induction on the distance to the end of
  the text: it returns, it appends to the chunks it was given, every chunk it appends is
  non-empty and at most \<open>chunkSize\<close> long, every position from the start index on that
  holds no white space is covered by an appended chunk, and the number of passes is
  bounded through \<open>min_advance\<close>.
\<close>

lemma chunk_loop_total:
  assumes ov: "0 \<le> overlap" "overlap < chunkSize"
  shows "0 \<le> startIndex \<Longrightarrow>
    \<exists>new k. chunk_loop cleanText chunkSize overlap startIndex chunks iters = Some (chunks @ new, k) \<and>
      (\<forall>c \<in> set new. c \<noteq> [] \<and> int (length c) \<le> chunkSize) \<and>
      (\<forall>i < length cleanText. startIndex \<le> int i \<longrightarrow> \<not> is_space (cleanText ! i) \<longrightarrow>
          covered cleanText new i) \<and>
      (startIndex < int (length cleanText) \<longrightarrow>
         (int k - int iters - 1) * min_advance chunkSize overlap
           < int (length cleanText) - startIndex) \<and>
      (int (length cleanText) \<le> startIndex \<longrightarrow> k = iters)"
proof (induction "nat (int (length cleanText) - startIndex)"
    arbitrary: startIndex chunks iters rule: less_induct)
  case less
  show ?case
  proof (cases "startIndex < int (length cleanText)")
    case False
    then show ?thesis
      by (subst chunk_loop.simps) simp
  next
    case True
    obtain chunk startIndex' where
      cs: "chunk_step cleanText chunkSize overlap startIndex = (chunk, startIndex')"
      by (cases "chunk_step cleanText chunkSize overlap startIndex")
    from chunk_step_facts [OF ov less.prems True cs]
    have f1: "chunk = take (length chunk) (drop (nat startIndex) cleanText)"
      and f2: "int (length chunk) \<le> chunkSize"
      and f3: "startIndex' \<le> startIndex + int (length chunk)"
      and f5: "startIndex' = int (length cleanText) \<and>
                 startIndex + int (length chunk) = int (length cleanText)
               \<or> startIndex + min_advance chunkSize overlap \<le> startIndex'"
      by blast+
    have d: "0 < min_advance chunkSize overlap"
      using ov by (simp add: min_advance_def)
    have adv: "startIndex < startIndex'"
      using f5 d True by auto
    define chunks' where
      "chunks' = (if length (trim chunk) > 0 then chunks @ [trim chunk] else chunks)"
    define add where "add = (if length (trim chunk) > 0 then [trim chunk] else [])"
    have chunks': "chunks' = chunks @ add" by (simp add: chunks'_def add_def)
    have unfold: "chunk_loop cleanText chunkSize overlap startIndex chunks iters =
        chunk_loop cleanText chunkSize overlap startIndex' chunks' (Suc iters)"
      by (subst chunk_loop.simps) (simp add: True cs chunks'_def)
    have "nat (int (length cleanText) - startIndex') < nat (int (length cleanText) - startIndex)"
      using adv True by simp
    moreover have "0 \<le> startIndex'" using adv less.prems by simp
    ultimately obtain new k where
      run: "chunk_loop cleanText chunkSize overlap startIndex' chunks' (Suc iters) =
              Some (chunks' @ new, k)"
      and bnd: "\<forall>c \<in> set new. c \<noteq> [] \<and> int (length c) \<le> chunkSize"
      and cov: "\<forall>i < length cleanText. startIndex' \<le> int i \<longrightarrow> \<not> is_space (cleanText ! i) \<longrightarrow>
                  covered cleanText new i"
      and cnt: "startIndex' < int (length cleanText) \<longrightarrow>
         (int k - int (Suc iters) - 1) * min_advance chunkSize overlap
           < int (length cleanText) - startIndex'"
        "int (length cleanText) \<le> startIndex' \<longrightarrow> k = Suc iters"
      using less.hyps [of startIndex' chunks' "Suc iters"] by blast
    obtain off where tw: "trim chunk = take (length (trim chunk)) (drop off chunk)"
      and twl: "off + length (trim chunk) \<le> length chunk"
      and twc: "\<forall>j < length chunk. \<not> is_space (chunk ! j) \<longrightarrow>
                  off \<le> j \<and> j < off + length (trim chunk)"
      using trim_window [of chunk] by blast
    have A: "chunk_loop cleanText chunkSize overlap startIndex chunks iters =
               Some (chunks @ (add @ new), k)"
      using unfold run chunks' by simp
    have B: "\<forall>c \<in> set (add @ new). c \<noteq> [] \<and> int (length c) \<le> chunkSize"
      using bnd f2 twl by (auto simp: add_def)
    have C: "covered cleanText (add @ new) i"
      if i: "i < length cleanText" and si: "startIndex \<le> int i"
        and ns: "\<not> is_space (cleanText ! i)" for i
    proof (cases "startIndex' \<le> int i")
      case True
      with cov i ns have "covered cleanText new i" by blast
      then show ?thesis by (rule covered_mono) auto
    next
      case False
      define j where "j = i - nat startIndex"
      have jl: "j < length chunk" using False f3 si less.prems unfolding j_def by linarith
      have ij: "i = nat startIndex + j" using si less.prems unfolding j_def by linarith
      have "chunk ! j = cleanText ! i"
      proof -
        have "chunk ! j = take (length chunk) (drop (nat startIndex) cleanText) ! j"
          using f1 by simp
        also have "\<dots> = cleanText ! i"
          using jl i ij by simp
        finally show ?thesis .
      qed
      with twc jl ns have jo: "off \<le> j" "j < off + length (trim chunk)" by simp_all
      then have ne: "length (trim chunk) > 0" by (cases "trim chunk") simp_all
      have sub: "take (length (trim chunk)) (drop (nat startIndex + off) cleanText) = trim chunk"
      proof -
        have "trim chunk = take (length (trim chunk))
                (drop off (take (length chunk) (drop (nat startIndex) cleanText)))"
          using tw f1 by simp
        also have "\<dots> = take (length (trim chunk)) (drop (nat startIndex + off) cleanText)"
          using twl by (simp add: drop_take add.commute)
        finally show ?thesis by simp
      qed
      have "trim chunk \<in> set (add @ new)" using ne by (simp add: add_def)
      moreover have "nat startIndex + off \<le> i" "i < nat startIndex + off + length (trim chunk)"
        using jo ij by simp_all
      ultimately show ?thesis using sub unfolding covered_def by blast
    qed
    have D: "(int k - int iters - 1) * min_advance chunkSize overlap
               < int (length cleanText) - startIndex"
    proof (cases "startIndex' < int (length cleanText)")
      case False
      with cnt have "k = Suc iters" by simp
      then show ?thesis using True by simp
    next
      case lt: True
      with cnt have "(int k - int iters - 2) * min_advance chunkSize overlap
                       < int (length cleanText) - startIndex'"
        by simp
      moreover have "startIndex + min_advance chunkSize overlap \<le> startIndex'"
        using f5 lt by auto
      ultimately show ?thesis by (simp add: algebra_simps)
    qed
    show ?thesis using A B C D True by (intro exI [of _ "add @ new"] exI [of _ k]) simp
  qed
qed

lemma chunk_step_advance:
  assumes "0 \<le> overlap" and "overlap < chunkSize" and "0 \<le> startIndex"
    and "startIndex + chunkSize < int (length cleanText)"
  shows "startIndex + min_advance chunkSize overlap
           \<le> snd (chunk_step cleanText chunkSize overlap startIndex)"
proof -
  obtain chunk startIndex' where
    cs: "chunk_step cleanText chunkSize overlap startIndex = (chunk, startIndex')"
    by (cases "chunk_step cleanText chunkSize overlap startIndex")
  have st: "startIndex < int (length cleanText)" using assms by simp
  from chunk_step_facts [OF assms(1,2,3) st cs]
  have "int (length chunk) \<le> chunkSize"
    and "startIndex' \<le> startIndex + int (length chunk)"
    and "startIndex' = int (length cleanText) \<and>
           startIndex + int (length chunk) = int (length cleanText)
         \<or> startIndex + min_advance chunkSize overlap \<le> startIndex'"
    by blast+
  with assms(4) have "startIndex + min_advance chunkSize overlap \<le> startIndex'" by auto
  then show ?thesis by (simp add: cs)
qed

text \<open>
  C4 (as amended). For every text and every \<open>chunkSize > overlap \<ge> 0\<close>, \<open>chunkText\<close>
  terminates, and the number of passes through its loop is at most
  \<open>ceil(len / min_advance)\<close>, where \<open>len\<close> is the length of the normalized text and
  \<open>min_advance = min (chunkSize - overlap) (chunkSize div 2 + 2)\<close>, because every pass
  whose window ends inside the text advances the start index by at least \<open>min_advance\<close>.
\<close>

theorem chunkText_terminates_bounded:
  assumes "0 \<le> overlap" and "overlap < chunkSize"
  shows "(\<exists>chunks k. chunkText_run text chunkSize overlap = Some (chunks, k) \<and>
            int k \<le> iteration_bound (length (clean_text text)) (min_advance chunkSize overlap)) \<and>
         (\<forall>startIndex. 0 \<le> startIndex \<and> startIndex + chunkSize < int (length (clean_text text)) \<longrightarrow>
            startIndex + min_advance chunkSize overlap
              \<le> snd (chunk_step (clean_text text) chunkSize overlap startIndex))"
proof -
  let ?t = "clean_text text" and ?d = "min_advance chunkSize overlap"
  have d: "0 < ?d" using assms by (simp add: min_advance_def)
  from chunk_loop_total [OF assms, of 0 ?t "[]" 0]
  obtain new k where run: "chunk_loop ?t chunkSize overlap 0 [] 0 = Some (new, k)"
    and cnt: "0 < length ?t \<longrightarrow> (int k - 1) * ?d < int (length ?t)" "length ?t = 0 \<longrightarrow> k = 0"
    by auto
  have "int k \<le> iteration_bound (length ?t) ?d"
  proof (cases "0 < length ?t")
    case False
    with cnt show ?thesis by (simp add: iteration_bound_def)
  next
    case True
    with cnt have "(int k - 1) * ?d < int (length ?t)" by simp
    then have "real_of_int ((int k - 1) * ?d) < real (length ?t)" by linarith
    then have "real_of_int (int k - 1) < real (length ?t) / real_of_int ?d"
      using d by (simp add: pos_less_divide_eq)
    then have "int k - 1 < \<lceil>real (length ?t) / real_of_int ?d\<rceil>"
      by (simp only: less_ceiling_iff)
    then show ?thesis by (simp add: iteration_bound_def)
  qed
  with run have bound: "\<exists>chunks k. chunkText_run text chunkSize overlap = Some (chunks, k) \<and>
      int k \<le> iteration_bound (length ?t) ?d"
    by (auto simp: chunkText_run_def)
  have "\<forall>startIndex. 0 \<le> startIndex \<and> startIndex + chunkSize < int (length ?t) \<longrightarrow>
      startIndex + ?d \<le> snd (chunk_step ?t chunkSize overlap startIndex)"
    using chunk_step_advance [OF assms] by blast
  with bound show ?thesis by blast
qed

theorem chunkText_terminates_bounded_witness:
  "(0::int) \<le> 0 \<and> (0::int) < 10 \<and>
   (\<exists>chunks k. chunkText_run ''aaaaaa.aaaaaa.aaaaaa.aaaaaaaa'' 10 0 = Some (chunks, k) \<and>
      int k \<le> iteration_bound (length (clean_text ''aaaaaa.aaaaaa.aaaaaa.aaaaaaaa''))
                 (min_advance 10 0)) \<and>
   min_advance 10 0 = 7 \<and>
   iteration_bound (length (clean_text ''aaaaaa.aaaaaa.aaaaaa.aaaaaaaa'')) (min_advance 10 0) = 5"
proof -
  have h1: "(0::int) \<le> 0" and h2: "(0::int) < 10" by simp_all
  have c: "clean_text ''aaaaaa.aaaaaa.aaaaaa.aaaaaaaa'' = ''aaaaaa.aaaaaa.aaaaaa.aaaaaaaa''"
    by code_simp
  have m: "min_advance 10 0 = 7" by (simp add: min_advance_def)
  have b: "iteration_bound (length ''aaaaaa.aaaaaa.aaaaaa.aaaaaaaa'') 7 = 5"
    by (simp add: iteration_bound_def)
  from chunkText_terminates_bounded [OF h1 h2, of "''aaaaaa.aaaaaa.aaaaaa.aaaaaaaa''"]
  have "\<exists>chunks k. chunkText_run ''aaaaaa.aaaaaa.aaaaaa.aaaaaaaa'' 10 0 = Some (chunks, k) \<and>
      int k \<le> iteration_bound (length (clean_text ''aaaaaa.aaaaaa.aaaaaa.aaaaaaaa''))
                 (min_advance 10 0)"
    by blast
  then show ?thesis using h1 h2 m b by (simp add: c)
qed

text \<open>
  C4 as stated fails: with \<open>chunkSize = 10\<close>, \<open>overlap = 0\<close> and a full stop at every
  seventh character of a text of 29 characters, the first pass advances the start index
  by 7, not by \<open>chunkSize - overlap = 10\<close>, and the loop makes 4 passes, more than
  \<open>ceil(29 / 10) = 3\<close>.
\<close>

theorem chunkText_bound_counterexample:
  "clean_text ''aaaaaa.aaaaaa.aaaaaa.aaaaaaaa'' = ''aaaaaa.aaaaaa.aaaaaa.aaaaaaaa'' \<and>
   chunk_step ''aaaaaa.aaaaaa.aaaaaa.aaaaaaaa'' 10 0 0 = (''aaaaaa.'', 7) \<and>
   chunkText_run ''aaaaaa.aaaaaa.aaaaaa.aaaaaaaa'' 10 0 =
     Some ([''aaaaaa.'', ''aaaaaa.'', ''aaaaaa.'', ''aaaaaaaa''], 4) \<and>
   iteration_bound (length (clean_text ''aaaaaa.aaaaaa.aaaaaa.aaaaaaaa'')) (10 - 0) = 3 \<and>
   \<not> int 4 \<le> iteration_bound (length (clean_text ''aaaaaa.aaaaaa.aaaaaa.aaaaaaaa'')) (10 - 0)"
proof -
  have c: "clean_text ''aaaaaa.aaaaaa.aaaaaa.aaaaaaaa'' = ''aaaaaa.aaaaaa.aaaaaa.aaaaaaaa''"
    by code_simp
  have s: "chunk_step ''aaaaaa.aaaaaa.aaaaaa.aaaaaaaa'' 10 0 0 = (''aaaaaa.'', 7)"
    by code_simp
  have r: "chunkText_run ''aaaaaa.aaaaaa.aaaaaa.aaaaaaaa'' 10 0 =
     Some ([''aaaaaa.'', ''aaaaaa.'', ''aaaaaa.'', ''aaaaaaaa''], 4)"
    by code_simp
  have b: "iteration_bound (length ''aaaaaa.aaaaaa.aaaaaa.aaaaaaaa'') (10 - 0) = 3"
    by (simp add: iteration_bound_def)
  show ?thesis using s r b by (simp add: c)
qed

text \<open>
  C5 (as amended). For every text and every \<open>chunkSize > overlap \<ge> 0\<close>, \<open>chunkText\<close>
  returns chunks that are non-empty and at most \<open>chunkSize\<close> long, and every position of
  the normalized text that holds a character other than white space lies in a chunk
  (the chunk being the slice of the normalized text at some offset).
\<close>

theorem chunkText_bounded_covering:
  assumes "0 \<le> overlap" and "overlap < chunkSize"
  shows "\<exists>chunks. chunkText text chunkSize overlap = Some chunks \<and>
           (\<forall>c \<in> set chunks. c \<noteq> [] \<and> int (length c) \<le> chunkSize) \<and>
           (\<forall>i < length (clean_text text). \<not> is_space (clean_text text ! i) \<longrightarrow>
               covered (clean_text text) chunks i)"
proof -
  from chunk_loop_total [OF assms, of 0 "clean_text text" "[]" 0]
  show ?thesis by (auto simp: chunkText_def chunkText_run_def)
qed

theorem chunkText_bounded_covering_witness:
  "(0::int) \<le> 2 \<and> (2::int) < 10 \<and>
   (\<exists>chunks. chunkText ''aaaaaa. bbbbbbbbbbbb'' 10 2 = Some chunks \<and>
           (\<forall>c \<in> set chunks. c \<noteq> [] \<and> int (length c) \<le> 10) \<and>
           (\<forall>i < length (clean_text ''aaaaaa. bbbbbbbbbbbb'').
               \<not> is_space (clean_text ''aaaaaa. bbbbbbbbbbbb'' ! i) \<longrightarrow>
               covered (clean_text ''aaaaaa. bbbbbbbbbbbb'') chunks i))"
proof -
  have h1: "(0::int) \<le> 2" and h2: "(2::int) < 10" by simp_all
  show ?thesis using h1 h2 chunkText_bounded_covering [OF h1 h2] by blast
qed

text \<open>
  C5 as stated fails in its second half: the space after the full stop of
  \<open>aaaaaa. bbbbbbbbbbbb\<close> stands at position 7 of the normalized text and in no chunk,
  because every chunk is trimmed before it is pushed.
\<close>

theorem chunkText_cover_counterexample:
  "clean_text ''aaaaaa. bbbbbbbbbbbb'' = ''aaaaaa. bbbbbbbbbbbb'' \<and>
   chunkText ''aaaaaa. bbbbbbbbbbbb'' 10 2 = Some [''aaaaaa.'', ''bbbbbbbbb'', ''bbbbb''] \<and>
   7 < length (clean_text ''aaaaaa. bbbbbbbbbbbb'') \<and>
   clean_text ''aaaaaa. bbbbbbbbbbbb'' ! 7 = CHR '' '' \<and>
   CHR '' '' \<notin> set (concat [''aaaaaa.'', ''bbbbbbbbb'', ''bbbbb'']) \<and>
   \<not> covered (clean_text ''aaaaaa. bbbbbbbbbbbb'') [''aaaaaa.'', ''bbbbbbbbb'', ''bbbbb''] 7"
proof -
  have c: "clean_text ''aaaaaa. bbbbbbbbbbbb'' = ''aaaaaa. bbbbbbbbbbbb''"
    by code_simp
  have r: "chunkText ''aaaaaa. bbbbbbbbbbbb'' 10 2 = Some [''aaaaaa.'', ''bbbbbbbbb'', ''bbbbb'']"
    by code_simp
  have n: "''aaaaaa. bbbbbbbbbbbb'' ! 7 = CHR '' ''"
    by simp
  have m: "CHR '' '' \<notin> set (concat [''aaaaaa.'', ''bbbbbbbbb'', ''bbbbb''])"
    by simp
  have "\<not> covered ''aaaaaa. bbbbbbbbbbbb'' [''aaaaaa.'', ''bbbbbbbbb'', ''bbbbb''] 7"
    using covered_nth_mem [of "''aaaaaa. bbbbbbbbbbbb''" "[''aaaaaa.'', ''bbbbbbbbb'', ''bbbbb'']" 7] n m
    by auto
  then show ?thesis using r n m by (simp add: c)
qed

subsection \<open>Embedder\<close>

text \<open>
  The loop over the batches, from any position: when the vectors gathered so far match
  the texts before position \<open>i\<close>, and the collaborator answers every batch of at most
  \<open>batchSize\<close> texts with one matching vector per text, the loop returns vectors that match
  all the texts.
\<close>

lemma embed_batches_matches:
  "\<forall>batch. batch \<noteq> [] \<and> length batch \<le> batchSize \<longrightarrow>
      (\<exists>vs. create apiKey (Batch batch) = Inr vs \<and> list_all2 R batch vs) \<Longrightarrow>
   list_all2 R (take i chunks) embeddings \<Longrightarrow>
   \<exists>result. embed_batches create apiKey chunks i embeddings = Inr result \<and>
            list_all2 R chunks result"
proof (induction create apiKey chunks i embeddings rule: embed_batches.induct)
  case (1 create apiKey chunks i embeddings)
  note api = "1.prems"(1) and pre = "1.prems"(2)
  show ?case
  proof (cases "i < length chunks")
    case False
    with pre show ?thesis by (simp add: embed_batches.simps)
  next
    case True
    let ?batch = "take batchSize (drop i chunks)"
    have nb: "?batch \<noteq> [] \<and> length ?batch \<le> batchSize"
      using True by (simp add: batchSize_def)
    have "\<exists>vs. create apiKey (Batch ?batch) = Inr vs \<and> list_all2 R ?batch vs"
      by (rule api [rule_format, OF nb])
    then obtain vs where vs: "create apiKey (Batch ?batch) = Inr vs"
      and m: "list_all2 R ?batch vs"
      by blast
    have "take (i + batchSize) chunks = take i chunks @ ?batch"
      by (simp add: take_add)
    with pre m have next_pre: "list_all2 R (take (i + batchSize) chunks) (embeddings @ vs)"
      by (simp add: list_all2_appendI)
    from "1.IH" [OF True vs api next_pre] show ?thesis
      using True vs by (subst embed_batches.simps) simp
  qed
qed

text \<open>
  C6. With an API key, and an embedding collaborator that answers every batch (of at
  most 20 texts) with one vector per text in request order, \<open>R text vector\<close> saying that
  the vector is the one for the text, \<open>generateEmbeddings\<close> returns exactly one vector per
  input text and the vector at position \<open>i\<close> is the one for the text at position \<open>i\<close>,
  whatever the number of batches.
\<close>

theorem generateEmbeddings_order_preserving:
  assumes key: "\<not> falsy apiKey"
    and api: "\<forall>batch. batch \<noteq> [] \<and> length batch \<le> batchSize \<longrightarrow>
                (\<exists>vs. create (the apiKey) (Batch batch) = Inr vs \<and> list_all2 R batch vs)"
  shows "\<exists>embeddings. generateEmbeddings create chunks apiKey = Inr embeddings \<and>
           length embeddings = length chunks \<and>
           (\<forall>i < length chunks. R (chunks ! i) (embeddings ! i))"
proof -
  have start: "list_all2 R (take 0 chunks) []" by simp
  have "\<exists>result. embed_batches create (the apiKey) chunks 0 [] = Inr result \<and>
                 list_all2 R chunks result"
    by (rule embed_batches_matches
        [where R = R and create = create and apiKey = "the apiKey", OF api start])
  then obtain result where r: "embed_batches create (the apiKey) chunks 0 [] = Inr result"
    and m: "list_all2 R chunks result"
    by blast
  have "generateEmbeddings create chunks apiKey = Inr result"
    using key r by (simp add: generateEmbeddings_def)
  moreover have "length result = length chunks"
    using m by (simp add: list_all2_lengthD)
  moreover have "\<forall>i < length chunks. R (chunks ! i) (result ! i)"
    using m by (simp add: list_all2_nthD)
  ultimately show ?thesis by blast
qed

text \<open>
  An instance: the collaborator that answers each text with the vector of its length, and
  23 texts, so that the second batch starts at position 20.
\<close>

theorem generateEmbeddings_order_preserving_witness:
  "\<not> falsy (Some ''sk-test'') \<and>
   (\<exists>embeddings. generateEmbeddings length_embedder sample_texts (Some ''sk-test'') = Inr embeddings \<and>
      length embeddings = length sample_texts \<and>
      embeddings ! 21 = [real (length (sample_texts ! 21))])"
proof -
  have key: "\<not> falsy (Some ''sk-test'')" by simp
  have api: "\<forall>batch. batch \<noteq> [] \<and> length batch \<le> batchSize \<longrightarrow>
      (\<exists>vs. length_embedder (the (Some ''sk-test'')) (Batch batch) = Inr vs \<and>
            list_all2 (\<lambda>t v. v = [real (length t)]) batch vs)"
    by (simp add: length_embedder_def list_all2_conv_all_nth)
  have len: "21 < length sample_texts" by (simp add: sample_texts_def)
  have "\<exists>embeddings. generateEmbeddings length_embedder sample_texts (Some ''sk-test'') = Inr embeddings \<and>
      length embeddings = length sample_texts \<and>
      (\<forall>i < length sample_texts. embeddings ! i = [real (length (sample_texts ! i))])"
    by (rule generateEmbeddings_order_preserving
        [where R = "\<lambda>t v. v = [real (length t)]" and create = length_embedder
           and apiKey = "Some ''sk-test''" and chunks = sample_texts, OF key api])
  then obtain embeddings where
    e: "generateEmbeddings length_embedder sample_texts (Some ''sk-test'') = Inr embeddings"
    and l: "length embeddings = length sample_texts"
    and a: "\<forall>i < length sample_texts. embeddings ! i = [real (length (sample_texts ! i))]"
    by blast
  from a len have "embeddings ! 21 = [real (length (sample_texts ! 21))]" by blast
  with key e l show ?thesis by blast
qed

subsection \<open>Vector index\<close>

text \<open>
  In a store keyed by id, deleting the ids of the chunks of a document removes exactly
  the chunks of that document.
\<close>

lemma filter_by_ids:
  assumes "distinct (map f xs)"
  shows "filter (\<lambda>r. f r \<notin> set (map f (filter P xs))) xs = filter (\<lambda>r. \<not> P r) xs"
proof (rule filter_cong [OF refl])
  fix r assume r: "r \<in> set xs"
  have inj: "inj_on f (set xs)" using assms by (simp add: distinct_map)
  have "f r \<in> f ` set (filter P xs) \<longleftrightarrow> P r"
  proof
    assume "f r \<in> f ` set (filter P xs)"
    then obtain q where q: "q \<in> set xs" "P q" "f r = f q" by auto
    with inj r have "r = q" by (auto dest: inj_onD)
    with q show "P r" by simp
  next
    assume "P r"
    with r show "f r \<in> f ` set (filter P xs)" by auto
  qed
  then show "(f r \<notin> set (map f (filter P xs))) = (\<not> P r)" by simp
qed

lemma group_documents_ids:
  "set (map doc_documentId (group_documents mds documentsMap)) =
     set (map doc_documentId documentsMap) \<union> set (map documentId mds)"
  by (induction mds arbitrary: documentsMap) auto

lemma deleteDocument_records:
  assumes "reachable store" and "store_ok store"
  shows "\<exists>store'. deleteDocument store docId = Inr store' \<and> reachable store' \<and>
           records store' = filter (\<lambda>r. documentId (metadata r) \<noteq> docId) (records store)"
proof (cases "filter (\<lambda>r. documentId (metadata r) = docId) (records store) = []")
  case True
  then have "filter (\<lambda>r. documentId (metadata r) \<noteq> docId) (records store) = records store"
    by (simp add: filter_empty_conv)
  with True assms show ?thesis
    by (simp add: deleteDocument_def coll_get_where_def)
next
  case False
  have "filter (\<lambda>r. chunk_id r \<notin> set (map chunk_id
            (filter (\<lambda>r. documentId (metadata r) = docId) (records store)))) (records store) =
        filter (\<lambda>r. documentId (metadata r) \<noteq> docId) (records store)"
    using assms(2) unfolding store_ok_def by (rule filter_by_ids)
  with False assms show ?thesis
    by (simp add: deleteDocument_def coll_get_where_def coll_delete_def)
qed

lemma deleteDocument_store_ok:
  assumes "store_ok store" and "deleteDocument store docId = Inr store'"
  shows "store_ok store'"
  using assms
  by (auto simp: deleteDocument_def coll_get_where_def coll_delete_def store_ok_def
      distinct_map_filter split: if_splits)

text \<open>
  C8. On a reachable store keyed by id, \<open>deleteDocument\<close> succeeds for every document id
  and leaves exactly the chunks of the other documents; when no chunk carries the id the
  store is unchanged; afterwards \<open>listDocuments\<close> has no row for the id, and
  \<open>totalChunks\<close> of \<open>getStats\<close> has gone down by the number of chunks the document had.
\<close>

theorem deleteDocument_complete:
  assumes "reachable store" and "store_ok store"
  shows "\<exists>store' docs before after.
           deleteDocument store docId = Inr store' \<and>
           records store' = filter (\<lambda>r. documentId (metadata r) \<noteq> docId) (records store) \<and>
           (docId \<notin> set (map (\<lambda>r. documentId (metadata r)) (records store)) \<longrightarrow> store' = store) \<and>
           listDocuments store' = Inr docs \<and> docId \<notin> set (map doc_documentId docs) \<and>
           getStats store = Inr before \<and> getStats store' = Inr after \<and>
           st_totalChunks before = st_totalChunks after +
             length (filter (\<lambda>r. documentId (metadata r) = docId) (records store))"
proof -
  let ?P = "\<lambda>r. documentId (metadata r) = docId"
  from deleteDocument_records [OF assms, of docId]
  obtain store' where d: "deleteDocument store docId = Inr store'"
    and re: "reachable store'"
    and rs: "records store' = filter (\<lambda>r. \<not> ?P r) (records store)"
    by auto
  have noop: "store' = store" if "docId \<notin> set (map (\<lambda>r. documentId (metadata r)) (records store))"
  proof -
    from that have "filter ?P (records store) = []"
      by (auto simp: filter_empty_conv)
    then have "deleteDocument store docId = Inr store"
      using assms by (simp add: deleteDocument_def coll_get_where_def)
    with d show ?thesis by simp
  qed
  define docs where "docs = group_documents (map metadata (records store')) []"
  have l: "listDocuments store' = Inr docs"
    using re by (simp add: listDocuments_def coll_get_all_def docs_def)
  have "set (map doc_documentId docs) = set (map documentId (map metadata (records store')))"
    unfolding docs_def by (simp only: group_documents_ids) simp
  then have nd: "docId \<notin> set (map doc_documentId docs)"
    by (auto simp: rs)
  define before where "before =
    \<lparr>st_totalChunks = length (records store),
     st_totalDocuments = length (group_documents (map metadata (records store)) []),
     st_documents = group_documents (map metadata (records store)) []\<rparr>"
  define after where "after =
    \<lparr>st_totalChunks = length (records store'), st_totalDocuments = length docs,
     st_documents = docs\<rparr>"
  have sb: "getStats store = Inr before"
    using assms(1)
    by (simp add: getStats_def coll_count_def listDocuments_def coll_get_all_def before_def)
  have sa: "getStats store' = Inr after"
    using re
    by (simp add: getStats_def coll_count_def listDocuments_def coll_get_all_def after_def docs_def)
  have cnt: "st_totalChunks before = st_totalChunks after + length (filter ?P (records store))"
    using sum_length_filter_compl [of ?P "records store"]
    by (simp add: before_def after_def rs)
  show ?thesis
    using d rs noop l nd sb sa cnt by blast
qed

theorem deleteDocument_complete_witness:
  "reachable sample_store \<and> store_ok sample_store \<and>
   (\<exists>store' docs before after.
      deleteDocument sample_store ''doc_1'' = Inr store' \<and>
      records store' = [sample_record ''doc_2'' 0 1 ''beta''] \<and>
      listDocuments store' = Inr docs \<and> ''doc_1'' \<notin> set (map doc_documentId docs) \<and>
      getStats sample_store = Inr before \<and> getStats store' = Inr after \<and>
      st_totalChunks before = st_totalChunks after + 2) \<and>
   deleteDocument sample_store ''doc_9'' = Inr sample_store"
proof -
  have r: "reachable sample_store" by (simp add: sample_store_def)
  have ok: "store_ok sample_store"
    by (simp add: store_ok_def sample_store_def sample_record_def show_nat.simps)
  from deleteDocument_complete [OF r ok, of "''doc_1''"]
  obtain store' docs before after where
    d: "deleteDocument sample_store ''doc_1'' = Inr store'"
    and rs: "records store' =
      filter (\<lambda>r. documentId (metadata r) \<noteq> ''doc_1'') (records sample_store)"
    and l: "listDocuments store' = Inr docs" "''doc_1'' \<notin> set (map doc_documentId docs)"
    and s: "getStats sample_store = Inr before" "getStats store' = Inr after"
    and c: "st_totalChunks before = st_totalChunks after +
      length (filter (\<lambda>r. documentId (metadata r) = ''doc_1'') (records sample_store))"
    by blast
  have rs': "records store' = [sample_record ''doc_2'' 0 1 ''beta'']"
    by (simp add: rs sample_store_def sample_record_def)
  have c': "st_totalChunks before = st_totalChunks after + 2"
    by (simp add: c sample_store_def sample_record_def)
  from deleteDocument_complete [OF r ok, of "''doc_9''"]
  obtain store'' where d9: "deleteDocument sample_store ''doc_9'' = Inr store''"
    and n9: "''doc_9'' \<notin> set (map (\<lambda>r. documentId (metadata r)) (records sample_store)) \<longrightarrow>
             store'' = sample_store"
    by blast
  have "''doc_9'' \<notin> set (map (\<lambda>r. documentId (metadata r)) (records sample_store))"
    by (simp add: sample_store_def sample_record_def)
  with n9 d9 have noop: "deleteDocument sample_store ''doc_9'' = Inr sample_store" by simp
  show ?thesis using r ok d rs' l s c' noop by blast
qed

subsection \<open>Retriever\<close>

lemma retrieveContext_catch:
  "retrieveContext_try create coll_query query topK apiKey = Inl e \<Longrightarrow>
   retrieveContext create coll_query query topK apiKey = Inr (error_context (message e))"
  by (simp add: retrieveContext_def error_context_def)

text \<open>
  C3. For every query, \<open>topK\<close>, API key and behaviour of the two collaborators,
  \<open>retrieveContext\<close> returns an object and never raises; whatever its \<open>try\<close> block throws
  comes back as \<open>hasContext = false\<close>, empty context, empty sources and the message of the
  error: so for an absent key, for a rejected embedding request and for a rejected index
  query.
\<close>

theorem retrieveContext_never_raises:
  "(\<exists>found. retrieveContext create coll_query query topK apiKey = Inr found) \<and>
   (\<forall>e. retrieveContext_try create coll_query query topK apiKey = Inl e \<longrightarrow>
      retrieveContext create coll_query query topK apiKey = Inr (error_context (message e))) \<and>
   (falsy apiKey \<longrightarrow>
      retrieveContext create coll_query query topK apiKey =
        Inr (error_context ''API Key required for generating embeddings'')) \<and>
   (\<forall>e. \<not> falsy apiKey \<and> create (the apiKey) (Single query) = Inl e \<longrightarrow>
      retrieveContext create coll_query query topK apiKey = Inr (error_context (message e))) \<and>
   (\<forall>v vs e. \<not> falsy apiKey \<and> create (the apiKey) (Single query) = Inr (v # vs) \<and>
        coll_query v topK = Inl e \<longrightarrow>
      retrieveContext create coll_query query topK apiKey = Inr (error_context (message e)))"
proof (intro conjI allI impI)
  show "\<exists>found. retrieveContext create coll_query query topK apiKey = Inr found"
    by (cases "retrieveContext_try create coll_query query topK apiKey")
      (simp_all add: retrieveContext_def)
next
  fix e assume "retrieveContext_try create coll_query query topK apiKey = Inl e"
  then show "retrieveContext create coll_query query topK apiKey = Inr (error_context (message e))"
    by (rule retrieveContext_catch)
next
  assume "falsy apiKey"
  then have "retrieveContext_try create coll_query query topK apiKey =
      Inl (Error ''API Key required for generating embeddings'')"
    by (simp add: retrieveContext_try_def generateQueryEmbedding_def)
  from retrieveContext_catch [OF this]
  show "retrieveContext create coll_query query topK apiKey =
      Inr (error_context ''API Key required for generating embeddings'')"
    by simp
next
  fix e assume "\<not> falsy apiKey \<and> create (the apiKey) (Single query) = Inl e"
  then have "retrieveContext_try create coll_query query topK apiKey = Inl e"
    by (simp add: retrieveContext_try_def generateQueryEmbedding_def)
  then show "retrieveContext create coll_query query topK apiKey = Inr (error_context (message e))"
    by (rule retrieveContext_catch)
next
  fix v vs e
  assume "\<not> falsy apiKey \<and> create (the apiKey) (Single query) = Inr (v # vs) \<and>
        coll_query v topK = Inl e"
  then have "retrieveContext_try create coll_query query topK apiKey = Inl e"
    by (simp add: retrieveContext_try_def generateQueryEmbedding_def searchSimilar_def)
  then show "retrieveContext create coll_query query topK apiKey = Inr (error_context (message e))"
    by (rule retrieveContext_catch)
qed

theorem retrieveContext_never_raises_witness:
  "falsy None \<and> \<not> falsy (Some ''sk-test'') \<and>
   retrieveContext length_embedder empty_index ''travel'' 3 None =
     Inr (error_context ''API Key required for generating embeddings'') \<and>
   retrieveContext failing_embedder empty_index ''travel'' 3 (Some ''sk-test'') =
     Inr (error_context ''429 Too Many Requests'') \<and>
   retrieveContext length_embedder failing_index ''travel'' 3 (Some ''sk-test'') =
     Inr (error_context ''Failed to connect to chromadb'')"
proof -
  have 1: "retrieveContext length_embedder empty_index ''travel'' 3 None =
     Inr (error_context ''API Key required for generating embeddings'')"
    using retrieveContext_never_raises [of length_embedder empty_index "''travel''" 3 None]
    by simp
  have "failing_embedder (the (Some ''sk-test'')) (Single ''travel'') =
      Inl (Error ''429 Too Many Requests'')"
    by (simp add: failing_embedder_def)
  then have 2: "retrieveContext failing_embedder empty_index ''travel'' 3 (Some ''sk-test'') =
     Inr (error_context ''429 Too Many Requests'')"
    using retrieveContext_never_raises
      [of failing_embedder empty_index "''travel''" 3 "Some ''sk-test''"]
    by simp
  have "length_embedder (the (Some ''sk-test'')) (Single ''travel'') = Inr [[6]] \<and>
        failing_index [6] 3 = Inl unreachable_error"
    by (simp add: length_embedder_def failing_index_def)
  then have 3: "retrieveContext length_embedder failing_index ''travel'' 3 (Some ''sk-test'') =
     Inr (error_context ''Failed to connect to chromadb'')"
    using retrieveContext_never_raises
      [of length_embedder failing_index "''travel''" 3 "Some ''sk-test''"]
    by (simp add: unreachable_error_def)
  show ?thesis using 1 2 3 by simp
qed

text \<open>
  C9. When the query is embedded and the index search returns no result,
  \<open>retrieveContext\<close> returns \<open>hasContext = false\<close>, an empty context and empty sources, and
  the returned object has no \<open>results\<close> property (and no \<open>error\<close> property); the handler of
  \<open>/api/search\<close> answers 200 with a body that has no \<open>results\<close> property either.
\<close>

theorem retrieveContext_no_results:
  assumes "\<not> falsy query"
    and "generateQueryEmbedding create (the query) (getApiKey sessionKey envKey) = Inr v"
    and "searchSimilar coll_query v (case topK of None \<Rightarrow> 3 | Some k \<Rightarrow> k) = Inr []"
  shows "retrieveContext create coll_query (the query) (case topK of None \<Rightarrow> 3 | Some k \<Rightarrow> k)
           (getApiKey sessionKey envKey) = Inr no_context \<and>
         results no_context = None \<and>
         api_search create coll_query sessionKey envKey query topK =
           \<lparr>status = 200,
            body = SearchOk \<lparr>so_success = True, so_query = the query, so_hasContext = False,
                             so_sources = [], so_results = None\<rparr>\<rparr>"
proof -
  have t: "retrieveContext_try create coll_query (the query)
             (case topK of None \<Rightarrow> 3 | Some k \<Rightarrow> k) (getApiKey sessionKey envKey) = Inr no_context"
    using assms(2,3) by (simp add: retrieveContext_try_def no_context_def)
  then have r: "retrieveContext create coll_query (the query)
             (case topK of None \<Rightarrow> 3 | Some k \<Rightarrow> k) (getApiKey sessionKey envKey) = Inr no_context"
    by (simp add: retrieveContext_def)
  have "api_search create coll_query sessionKey envKey query topK =
           \<lparr>status = 200,
            body = SearchOk \<lparr>so_success = True, so_query = the query, so_hasContext = False,
                             so_sources = [], so_results = None\<rparr>\<rparr>"
    using assms(1) by (simp add: api_search_def r) (simp add: no_context_def)
  with r show ?thesis by (simp add: no_context_def)
qed

theorem retrieveContext_no_results_witness:
  "\<not> falsy (Some ''travel'') \<and>
   retrieveContext length_embedder empty_index ''travel'' 3 (Some ''sk-test'') = Inr no_context \<and>
   api_search length_embedder empty_index None (Some ''sk-test'') (Some ''travel'') None =
     \<lparr>status = 200,
      body = SearchOk \<lparr>so_success = True, so_query = ''travel'', so_hasContext = False,
                       so_sources = [], so_results = None\<rparr>\<rparr>"
proof -
  have q: "\<not> falsy (Some ''travel'')" by simp
  have g: "generateQueryEmbedding length_embedder (the (Some ''travel''))
             (getApiKey None (Some ''sk-test'')) = Inr [6]"
    by (simp add: generateQueryEmbedding_def getApiKey_def or_else_def length_embedder_def)
  have s: "searchSimilar empty_index [6] (case None of None \<Rightarrow> 3 | Some k \<Rightarrow> k) = Inr []"
    by (simp add: searchSimilar_def empty_index_def)
  from retrieveContext_no_results [OF q g s]
  show ?thesis by (simp add: getApiKey_def or_else_def)
qed

subsection \<open>Session negotiator\<close>

text \<open>The handler of \<open>server.js\<close> hands no credential to the console, whatever happens.\<close>

lemma realtime_call_logs_no_secret:
  "logged_secrets (fst (realtime_call IELTS_INSTRUCTIONS create coll_query sessions
      sessionKey envKey config)) = []"
  by (simp add: realtime_call_def logged_secrets_def List.map_filter_simps Let_def
      split: sum.splits)

text \<open>
  The handler of the earlier server file hands the credential to the console whenever
  the session is created.
\<close>

lemma realtime_call_legacy_logs_secret:
  assumes "\<not> falsy envKey"
    and "sessions (the envKey)
           \<lparr>model = or_default (cfg_model config) ''gpt-4o-realtime-preview-2024-12-17'',
            voice = or_default (cfg_voice config) ''alloy'',
            instructions = or_default (cfg_instructions config) IELTS_INSTRUCTIONS\<rparr> = Inr response"
    and "resp_ok response" and "resp_json response = Inr data"
  shows "logged_secrets (fst (realtime_call_legacy IELTS_INSTRUCTIONS sessions envKey config)) =
           [sd_client_secret data]"
  using assms
  by (simp add: realtime_call_legacy_def logged_secrets_def List.map_filter_simps Let_def)

text \<open>
  C2 fails on the earlier server file. A request with the default configuration, the key
  in the environment and a collaborator that grants the session: the reply carries the
  credential, and the console has received it as well, in the entry
  \<open>Client Secret:\<close>. The same request to the handler of \<open>server.js\<close> logs no credential.
\<close>

theorem realtime_call_legacy_logs_credential:
  "realtime_call_legacy ''You are an IELTS examiner.'' granting_sessions (Some ''sk-test'')
     default_config =
     ([(ConsoleLog, [LStr ''Creating Realtime session with OpenAI...'']),
       (ConsoleLog, [LStr ''Model:'', LStr ''gpt-4o-realtime-preview-2024-12-17'']),
       (ConsoleLog, [LStr ''Voice:'', LStr ''alloy'']),
       (ConsoleLog, [LStr ''Session created successfully'']),
       (ConsoleLog, [LStr ''Session ID:'', LStr ''sess_001'']),
       (ConsoleLog, [LStr ''Client Secret:'', LSecret sample_secret])],
      \<lparr>status = 200, body = CallSession ''sess_001'' sample_secret 1700000060\<rparr>) \<and>
   logged_secrets (fst (realtime_call_legacy ''You are an IELTS examiner.'' granting_sessions
     (Some ''sk-test'') default_config)) = [sample_secret] \<and>
   logged_secrets (fst (realtime_call ''You are an IELTS examiner.'' create coll_query
     granting_sessions None (Some ''sk-test'') default_config)) = []"
proof -
  have run: "realtime_call_legacy ''You are an IELTS examiner.'' granting_sessions (Some ''sk-test'')
     default_config =
     ([(ConsoleLog, [LStr ''Creating Realtime session with OpenAI...'']),
       (ConsoleLog, [LStr ''Model:'', LStr ''gpt-4o-realtime-preview-2024-12-17'']),
       (ConsoleLog, [LStr ''Voice:'', LStr ''alloy'']),
       (ConsoleLog, [LStr ''Session created successfully'']),
       (ConsoleLog, [LStr ''Session ID:'', LStr ''sess_001'']),
       (ConsoleLog, [LStr ''Client Secret:'', LSecret sample_secret])],
      \<lparr>status = 200, body = CallSession ''sess_001'' sample_secret 1700000060\<rparr>)"
    by (simp add: realtime_call_legacy_def granting_sessions_def default_config_def
        or_default_def Let_def)
  show ?thesis
    by (simp add: run realtime_call_logs_no_secret)
      (simp add: logged_secrets_def List.map_filter_simps)
qed

subsection \<open>Turn controller\<close>

lemma sendEvent_flags [simp]:
  "isConnected (sendEvent ev s) = isConnected s"
  "isTalking (sendEvent ev s) = isTalking s"
  "conversationHistory (sendEvent ev s) = conversationHistory s"
  "dataChannel (sendEvent ev s) = dataChannel s"
  "remoteAudioMuted (sendEvent ev s) = remoteAudioMuted s"
  "sent (sendEvent ev s) = (if dataChannel s = Some Open then sent s @ [ev] else sent s)"
  by (simp_all add: sendEvent_def)

lemma parseFeedback_keeps [simp]:
  "isConnected (parseFeedback t s) = isConnected s"
  "isTalking (parseFeedback t s) = isTalking s"
  "conversationHistory (parseFeedback t s) = conversationHistory s"
  "sent (parseFeedback t s) = sent s"
  "currentQuestion (parseFeedback t s) = currentQuestion s"
  "currentAssistantTranscript (parseFeedback t s) = currentAssistantTranscript s"
  by (simp_all add: parseFeedback_def Let_def split: option.splits)

lemma startTalking_accepted:
  assumes "isConnected s" and "\<not> isTalking s"
  shows "isConnected (startTalking s)" and "isTalking (startTalking s)"
    and "remoteAudioMuted (startTalking s)"
    and "sent (startTalking s) =
           sent s @ (if dataChannel s = Some Open then [ResponseCancel, InputAudioBufferCommit] else [])"
    and "conversationHistory (startTalking s) = conversationHistory s"
    and "localStream (startTalking s) = map_option (map (\<lambda>enabled. True)) (localStream s)"
  using assms by (simp_all add: startTalking_def Let_def sendEvent_def)

lemma stopTalking_accepted:
  assumes "isConnected s" and "isTalking s"
  shows "isConnected (stopTalking s)" and "\<not> isTalking (stopTalking s)"
  using assms by (simp_all add: stopTalking_def)

text \<open>
  C1 (as amended). A "start talking" event is ignored, leaving the state unchanged and
  sending nothing, exactly when the session is not connected or the user is already
  talking. In every other state it is accepted, whether or not an agent response is
  awaited: the user is talking afterwards, the remote audio is muted, every microphone
  track is enabled, and \<open>response.cancel\<close> and \<open>input_audio_buffer.commit\<close> have been sent
  if the channel is open.
\<close>

theorem startTalking_ignored_iff:
  "(startTalking s = s \<longleftrightarrow> \<not> isConnected s \<or> isTalking s) \<and>
   (isConnected s \<and> \<not> isTalking s \<longrightarrow>
      isTalking (startTalking s) \<and> remoteAudioMuted (startTalking s) \<and>
      localStream (startTalking s) = map_option (map (\<lambda>enabled. True)) (localStream s) \<and>
      sent (startTalking s) =
        sent s @ (if dataChannel s = Some Open then [ResponseCancel, InputAudioBufferCommit] else []))"
proof (cases "isConnected s \<and> \<not> isTalking s")
  case False
  then show ?thesis by (auto simp: startTalking_def)
next
  case True
  then have c: "isConnected s" and t: "\<not> isTalking s" by simp_all
  from startTalking_accepted(2) [OF c t] t have "startTalking s \<noteq> s" by auto
  with True startTalking_accepted(2,3,4,6) [OF c t] show ?thesis by simp
qed

lemma awaiting_state_eq:
  "awaiting_state = connected_state
     \<lparr>conversationHistory :=
        conversationHistory connected_state @ [(''system'', ''Data channel established'')],
      dataChannel := Some Open, sent := [ResponseCreate]\<rparr>"
  by (simp add: awaiting_state_def controller_run_def dataChannel_onopen_def sendEvent_def
      addLogEntry_def connected_state_def)

theorem startTalking_ignored_iff_witness:
  "isConnected awaiting_state \<and> \<not> isTalking awaiting_state \<and>
   startTalking awaiting_state \<noteq> awaiting_state \<and>
   isTalking (startTalking awaiting_state) \<and>
   sent (startTalking awaiting_state) = [ResponseCreate, ResponseCancel, InputAudioBufferCommit]"
proof -
  have f: "isConnected awaiting_state" "\<not> isTalking awaiting_state"
    "dataChannel awaiting_state = Some Open" "sent awaiting_state = [ResponseCreate]"
    by (simp_all add: awaiting_state_eq connected_state_def)
  from startTalking_ignored_iff [of awaiting_state] f show ?thesis by simp
qed

text \<open>
  C1 as stated fails. After the channel has opened, the controller has asked for the
  opening agent turn and the turn state of the specification is
  \<open>AwaitingAgentResponse\<close>; a "start talking" event in that state is accepted by the code:
  the state changes and two events are sent.
\<close>

theorem startTalking_awaiting_counterexample:
  "spec_turn_run [ChannelOpen] = AwaitingAgentResponse \<and>
   spec_turn AwaitingAgentResponse StartTalking = AwaitingAgentResponse \<and>
   sent (controller_run connected_state [ChannelOpen]) = [ResponseCreate] \<and>
   controller_step (controller_run connected_state [ChannelOpen]) StartTalking
     \<noteq> controller_run connected_state [ChannelOpen] \<and>
   isTalking (controller_run connected_state [ChannelOpen, StartTalking]) \<and>
   sent (controller_run connected_state [ChannelOpen, StartTalking]) =
     [ResponseCreate, ResponseCancel, InputAudioBufferCommit]"
proof -
  have f: "isConnected awaiting_state" "\<not> isTalking awaiting_state"
    "dataChannel awaiting_state = Some Open" "sent awaiting_state = [ResponseCreate]"
    by (simp_all add: awaiting_state_eq connected_state_def)
  have r2: "controller_run connected_state [ChannelOpen, StartTalking] = startTalking awaiting_state"
    by (simp add: controller_run_def awaiting_state_def)
  have t: "isTalking (startTalking awaiting_state)"
    and s: "sent (startTalking awaiting_state) = [ResponseCreate, ResponseCancel, InputAudioBufferCommit]"
    using f by (simp_all add: startTalking_accepted)
  from t f have "startTalking awaiting_state \<noteq> awaiting_state" by auto
  then show ?thesis
    using t s f by (simp add: r2 spec_turn_run_def) (simp add: awaiting_state_def)
qed

lemma speaking_state_eq:
  "speaking_state = awaiting_state\<lparr>currentAssistantTranscript := ''Good morning''\<rparr>"
  by (simp add: speaking_state_def awaiting_state_def controller_run_def
      handleAssistantTranscriptDelta_def dataChannel_onopen_def sendEvent_def addLogEntry_def
      connected_state_def)

lemma handleAssistantTranscriptDone_effect:
  "conversationHistory (handleAssistantTranscriptDone transcript s) =
     conversationHistory s @ [(''examiner'', transcript)]"
  "currentQuestion (handleAssistantTranscriptDone transcript s) = transcript"
  "currentAssistantTranscript (handleAssistantTranscriptDone transcript s) = []"
  "isTalking (handleAssistantTranscriptDone transcript s) = isTalking s"
  "isConnected (handleAssistantTranscriptDone transcript s) = isConnected s"
  "sent (handleAssistantTranscriptDone transcript s) = sent s"
  by (simp_all add: handleAssistantTranscriptDone_def addLogEntry_def)

text \<open>
  C7 (as amended). After the user barges in (a "start talking" event accepted while the
  agent speaks, which sends one \<open>response.cancel\<close> and one \<open>input_audio_buffer.commit\<close> on
  an open channel), a completed agent-speech transcript that arrives afterwards is
  handled like any other: it is appended to the conversation log as one examiner entry,
  becomes the current question, and clears the accumulation buffer; the user stays
  talking and nothing is sent.
\<close>

theorem late_transcript_done_is_logged:
  assumes "isConnected s" and "\<not> isTalking s"
  shows "sent (startTalking s) =
           sent s @ (if dataChannel s = Some Open then [ResponseCancel, InputAudioBufferCommit] else []) \<and>
         conversationHistory (handleRealtimeEvent (AudioTranscriptDone transcript) (startTalking s)) =
           conversationHistory s @ [(''examiner'', transcript)] \<and>
         currentQuestion (handleRealtimeEvent (AudioTranscriptDone transcript) (startTalking s)) =
           transcript \<and>
         currentAssistantTranscript
           (handleRealtimeEvent (AudioTranscriptDone transcript) (startTalking s)) = [] \<and>
         isTalking (handleRealtimeEvent (AudioTranscriptDone transcript) (startTalking s)) \<and>
         isConnected (handleRealtimeEvent (AudioTranscriptDone transcript) (startTalking s)) \<and>
         sent (handleRealtimeEvent (AudioTranscriptDone transcript) (startTalking s)) =
           sent (startTalking s)"
  using startTalking_accepted [OF assms]
  by (simp add: handleAssistantTranscriptDone_effect)

theorem late_transcript_done_is_logged_witness:
  "isConnected speaking_state \<and> \<not> isTalking speaking_state \<and>
   sent (startTalking speaking_state) = [ResponseCreate, ResponseCancel, InputAudioBufferCommit] \<and>
   conversationHistory
     (handleRealtimeEvent (AudioTranscriptDone ''Good morning. What is your name?'')
        (startTalking speaking_state)) =
     conversationHistory speaking_state @ [(''examiner'', ''Good morning. What is your name?'')] \<and>
   isTalking
     (handleRealtimeEvent (AudioTranscriptDone ''Good morning. What is your name?'')
        (startTalking speaking_state))"
proof -
  have c: "isConnected speaking_state" and t: "\<not> isTalking speaking_state"
    and d: "dataChannel speaking_state = Some Open" "sent speaking_state = [ResponseCreate]"
    by (simp_all add: speaking_state_eq awaiting_state_eq connected_state_def)
  from late_transcript_done_is_logged
    [OF c t, of "''Good morning. What is your name?''"] c t d
  show ?thesis by simp
qed

text \<open>
  C7 as stated fails. The agent is speaking (a transcript fragment has arrived), the user
  barges in, and the completed transcript of the cancelled turn arrives late: the
  specification's machine stays in \<open>ListeningToUser\<close>, while the code changes its state and
  appends a conversation-log entry.
\<close>

theorem late_transcript_done_counterexample:
  "spec_turn_run [ChannelOpen, Message (AudioTranscriptDelta ''Good morning'')] = AgentSpeaking \<and>
   spec_turn_run [ChannelOpen, Message (AudioTranscriptDelta ''Good morning''), StartTalking] =
     ListeningToUser \<and>
   spec_turn ListeningToUser (Message (AudioTranscriptDone ''Good morning. What is your name?'')) =
     ListeningToUser \<and>
   sent (controller_step speaking_state StartTalking) =
     [ResponseCreate, ResponseCancel, InputAudioBufferCommit] \<and>
   controller_step (controller_step speaking_state StartTalking)
       (Message (AudioTranscriptDone ''Good morning. What is your name?''))
     \<noteq> controller_step speaking_state StartTalking \<and>
   conversationHistory
     (controller_step (controller_step speaking_state StartTalking)
        (Message (AudioTranscriptDone ''Good morning. What is your name?''))) =
     conversationHistory (controller_step speaking_state StartTalking) @
       [(''examiner'', ''Good morning. What is your name?'')]"
proof -
  have c: "isConnected speaking_state" and t: "\<not> isTalking speaking_state"
    and d: "dataChannel speaking_state = Some Open" "sent speaking_state = [ResponseCreate]"
    by (simp_all add: speaking_state_eq awaiting_state_eq connected_state_def)
  let ?b = "startTalking speaking_state"
  let ?l = "handleAssistantTranscriptDone ''Good morning. What is your name?'' ?b"
  have s: "sent ?b = [ResponseCreate, ResponseCancel, InputAudioBufferCommit]"
    using startTalking_accepted(4) [OF c t] d by simp
  have h: "conversationHistory ?l =
      conversationHistory ?b @ [(''examiner'', ''Good morning. What is your name?'')]"
    by (simp add: handleAssistantTranscriptDone_effect)
  then have "conversationHistory ?l \<noteq> conversationHistory ?b" by simp
  then have n: "?l \<noteq> ?b" by auto
  show ?thesis using s h n by (simp add: spec_turn_run_def)
qed

text \<open>
  C10. \<open>startTalking\<close> leaves the whole state (flags, outbound events, audio tracks,
  mute) as it is when the session is not connected or the user is already talking, and
  \<open>stopTalking\<close> does so when the session is not connected or the user is not talking;
  hence a second start after a start, and a second stop after a stop, change nothing.
\<close>

theorem push_to_talk_noop_idempotent:
  "(\<not> isConnected s \<or> isTalking s \<longrightarrow> startTalking s = s) \<and>
   (\<not> isConnected s \<or> \<not> isTalking s \<longrightarrow> stopTalking s = s) \<and>
   startTalking (startTalking s) = startTalking s \<and>
   stopTalking (stopTalking s) = stopTalking s"
proof (intro conjI impI)
  assume "\<not> isConnected s \<or> isTalking s"
  then show "startTalking s = s" by (auto simp: startTalking_def)
next
  assume "\<not> isConnected s \<or> \<not> isTalking s"
  then show "stopTalking s = s" by (auto simp: stopTalking_def)
next
  show "startTalking (startTalking s) = startTalking s"
  proof (cases "isConnected s \<and> \<not> isTalking s")
    case True
    then have "isTalking (startTalking s)" by (simp add: startTalking_accepted)
    then show ?thesis by (simp add: startTalking_def [of "startTalking s"])
  next
    case False
    then have "startTalking s = s" by (auto simp: startTalking_def)
    then show ?thesis by simp
  qed
next
  show "stopTalking (stopTalking s) = stopTalking s"
  proof (cases "isConnected s \<and> isTalking s")
    case True
    then have "\<not> isTalking (stopTalking s)" by (simp add: stopTalking_accepted)
    then show ?thesis by (simp add: stopTalking_def [of "stopTalking s"])
  next
    case False
    then have "stopTalking s = s" by (auto simp: stopTalking_def)
    then show ?thesis by simp
  qed
qed

theorem push_to_talk_noop_idempotent_witness:
  "isConnected talking_state \<and> isTalking talking_state \<and>
   startTalking talking_state = talking_state \<and>
   isConnected awaiting_state \<and> \<not> isTalking awaiting_state \<and>
   stopTalking awaiting_state = awaiting_state \<and>
   sent (startTalking (startTalking awaiting_state)) =
     [ResponseCreate, ResponseCancel, InputAudioBufferCommit]"
proof -
  have a: "isConnected awaiting_state" "\<not> isTalking awaiting_state"
    "dataChannel awaiting_state = Some Open" "sent awaiting_state = [ResponseCreate]"
    by (simp_all add: awaiting_state_eq connected_state_def)
  have ts: "talking_state = startTalking awaiting_state"
    by (simp add: talking_state_def awaiting_state_def controller_run_def)
  have t: "isConnected talking_state" "isTalking talking_state"
    using a by (simp_all add: ts startTalking_accepted)
  have s: "sent (startTalking awaiting_state) = [ResponseCreate, ResponseCancel, InputAudioBufferCommit]"
    using a by (simp add: startTalking_accepted)
  from push_to_talk_noop_idempotent [of talking_state]
    push_to_talk_noop_idempotent [of awaiting_state] a t s
  show ?thesis by simp
qed

end
